theory Spec2Isabelle
  imports Complex_Main
begin

section \<open>Launch planner and tiling configuration of flex attention\<close>

text \<open>
  The embedding follows \<^verbatim>\<open>torch/_inductor/kernel/flex_attention.py\<close>.
  Sizes, tile parameters and grid indices are non-negative, so they are natural
  numbers; a Python exception is a value of \<open>py_error\<close> on the left of a sum.
\<close>

datatype py_error =
    ZeroDivisionError
  | IndexError
  | KeyError
  | TypeError
  | ValueError
  | AssertionError_TensorBox
  | AssertionError_StorageBox
  | StaticAssertionError
  | LoweringError string

datatype SubgraphType = FWD | JOINT_FWD | JOINT_BWD

datatype dtype = float32 | bfloat16 | float16 | float64 | int32

type_synonym tile_config = "nat \<times> nat \<times> nat \<times> nat"

text \<open>\<^verbatim>\<open>triton.cdiv(x, y)\<close> is \<^verbatim>\<open>(x + y - 1) // y\<close>; the division raises on a zero
  divisor.\<close>

definition cdiv :: "nat \<Rightarrow> nat \<Rightarrow> py_error + nat" where
  "cdiv x y = (if y = 0 then Inl ZeroDivisionError else Inr ((x + y - 1) div y))"

text \<open>The keyword arguments a forward kernel candidate is generated with
  (\<^verbatim>\<open>meta\<close> in the grid function, the constexpr names in the template).\<close>

record fwd_meta =
  BLOCK_M :: nat
  BLOCK_N :: nat
  BLOCK_DMODEL :: nat
  SCORE_MOD_IS_LINEAR :: bool
  ROWS_GUARANTEED_SAFE :: bool
  OUTPUT_LOGSUMEXP :: bool
  num_warps :: nat
  num_stages :: nat

record bwd_meta =
  BLOCK_M1 :: nat
  BLOCK_N1 :: nat
  BLOCK_M2 :: nat
  BLOCK_N2 :: nat
  bwd_BLOCK_DMODEL :: nat
  bwd_SCORE_MOD_IS_LINEAR :: bool
  bwd_num_warps :: nat
  bwd_num_stages :: nat

definition flex_attention_grid ::
  "nat \<Rightarrow> nat \<Rightarrow> nat \<Rightarrow> nat \<Rightarrow> fwd_meta \<Rightarrow> py_error + (nat \<times> nat \<times> nat)" where
  "flex_attention_grid batch_size num_heads num_queries d_model meta =
     (case cdiv num_queries (BLOCK_M meta) of
        Inl e \<Rightarrow> Inl e
      | Inr g0 \<Rightarrow> Inr (g0, batch_size * num_heads, 1))"

definition flex_attention_backward_grid ::
  "nat \<Rightarrow> nat \<Rightarrow> nat \<Rightarrow> nat \<Rightarrow> nat \<Rightarrow> bwd_meta \<Rightarrow> py_error + (nat \<times> nat \<times> nat)" where
  "flex_attention_backward_grid batch_size num_heads num_queries d_model num_key_value meta =
     (case cdiv num_queries (BLOCK_M2 meta) of
        Inl e \<Rightarrow> Inl e
      | Inr gq \<Rightarrow>
          (case cdiv num_key_value (BLOCK_N1 meta) of
             Inl e \<Rightarrow> Inl e
           | Inr gkv \<Rightarrow> Inr (gq + gkv, 1, batch_size * num_heads)))"

text \<open>The dispatch at the head of the backward kernel:
  \<^verbatim>\<open>NUM_KV_BLOCKS = KV_LEN // BLOCK_N1\<close>, then \<^verbatim>\<open>if pid >= NUM_KV_BLOCKS\<close> the unit
  computes DQ (query phase, with \<^verbatim>\<open>off_pid = pid - NUM_KV_BLOCKS\<close>), else DK and DV
  (key/value phase, with \<^verbatim>\<open>start_n1 = pid * BLOCK_N1\<close>).\<close>

datatype bwd_phase = DQ_phase nat | DKDV_phase nat

definition NUM_KV_BLOCKS :: "nat \<Rightarrow> bwd_meta \<Rightarrow> nat" where
  "NUM_KV_BLOCKS KV_LEN meta = KV_LEN div BLOCK_N1 meta"

definition backward_dispatch :: "nat \<Rightarrow> bwd_meta \<Rightarrow> nat \<Rightarrow> bwd_phase" where
  "backward_dispatch KV_LEN meta pid =
     (if pid \<ge> NUM_KV_BLOCKS KV_LEN meta
      then DQ_phase ((pid - NUM_KV_BLOCKS KV_LEN meta) * BLOCK_M2 meta)
      else DKDV_phase (pid * BLOCK_N1 meta))"

fun is_DKDV :: "bwd_phase \<Rightarrow> bool" where
  "is_DKDV (DKDV_phase _) = True"
| "is_DKDV (DQ_phase _) = False"

subsection \<open>Default configurations\<close>

text \<open>The two lookup tables, keyed by (dtype, head dimension).\<close>

definition h100_default_config :: "dtype \<times> nat \<Rightarrow> tile_config option" where
  "h100_default_config key =
     (if key = (float32, 64) then Some (128, 32, 4, 3)
      else if key = (float32, 128) then Some (32, 64, 4, 3)
      else if key = (float32, 256) then Some (32, 32, 4, 3)
      else if key = (bfloat16, 64) then Some (128, 64, 4, 3)
      else if key = (bfloat16, 128) then Some (64, 32, 4, 3)
      else if key = (bfloat16, 256) then Some (64, 32, 4, 3)
      else None)"

definition a100_default_config :: "dtype \<times> nat \<Rightarrow> tile_config option" where
  "a100_default_config key =
     (if key = (float32, 64) then Some (128, 32, 4, 3)
      else if key = (float32, 128) then Some (128, 32, 4, 3)
      else if key = (float32, 256) then Some (64, 16, 4, 3)
      else if key = (bfloat16, 64) then Some (128, 64, 4, 3)
      else if key = (bfloat16, 128) then Some (128, 32, 4, 3)
      else if key = (bfloat16, 256) then Some (32, 64, 4, 3)
      else None)"

text \<open>\<^verbatim>\<open>dict.get(key, default)\<close>.\<close>

definition dict_get :: "('k \<Rightarrow> 'v option) \<Rightarrow> 'k \<Rightarrow> 'v \<Rightarrow> 'v" where
  "dict_get d key dflt = (case d key of Some v \<Rightarrow> v | None \<Rightarrow> dflt)"

text \<open>Python compares the capability tuple lexicographically.\<close>

definition capability_ge :: "nat \<times> nat \<Rightarrow> nat \<times> nat \<Rightarrow> bool" where
  "capability_ge c r = (fst c > fst r \<or> (fst c = fst r \<and> snd c \<ge> snd r))"

definition get_default_config_fwd :: "dtype \<Rightarrow> nat \<Rightarrow> nat \<times> nat \<Rightarrow> tile_config" where
  "get_default_config_fwd dt head_dim capability =
     (if head_dim \<le> 256 \<and> capability_ge capability (9, 0) then
        dict_get h100_default_config (dt, head_dim)
          (if dt = float32 then (64, 64, 4, 3) else (128, 64, 4, 3))
      else if head_dim \<le> 256 \<and> capability_ge capability (8, 0) then
        dict_get a100_default_config (dt, head_dim)
          (if dt = float32 then (64, 64, 4, 3) else (128, 64, 4, 3))
      else
        (if dt = float32 then (32, 16, 4, 3) else (64, 32, 4, 3)))"

definition get_default_config_bwd :: "dtype \<Rightarrow> nat \<Rightarrow> nat \<times> nat \<Rightarrow> tile_config" where
  "get_default_config_bwd dt head_dim capability =
     (if head_dim \<le> 256 \<and> capability_ge capability (9, 0) then
        (if dt = float32 then (64, 64, 4, 1) else (128, 128, 4, 3))
      else if head_dim \<le> 256 \<and> capability_ge capability (8, 0) then (64, 64, 4, 1)
      else (16, 16, 4, 1))"

subsection \<open>The candidates the two lowerings generate\<close>

text \<open>\<^verbatim>\<open>configs\<close> in \<^verbatim>\<open>flex_attention\<close>: the default, then five more under
  \<^verbatim>\<open>config.max_autotune\<close>.\<close>

definition flex_attention_configs ::
  "bool \<Rightarrow> dtype \<Rightarrow> nat \<Rightarrow> nat \<times> nat \<Rightarrow> tile_config list" where
  "flex_attention_configs max_autotune dt head_dim capability =
     [get_default_config_fwd dt head_dim capability] @
     (if max_autotune
      then [(128, 64, 4, 3), (128, 128, 4, 3), (128, 128, 8, 2), (64, 128, 4, 3), (64, 64, 4, 3)]
      else [])"

text \<open>The keyword arguments of each \<^verbatim>\<open>maybe_append_choice\<close> call of the forward
  lowering.\<close>

definition flex_attention_choice :: "nat \<Rightarrow> tile_config \<Rightarrow> fwd_meta" where
  "flex_attention_choice head_dim cfg =
     (case cfg of (bm, bn, nw, ns) \<Rightarrow>
        \<lparr>BLOCK_M = bm, BLOCK_N = bn, BLOCK_DMODEL = head_dim,
         SCORE_MOD_IS_LINEAR = True, ROWS_GUARANTEED_SAFE = True, OUTPUT_LOGSUMEXP = True,
         num_warps = nw, num_stages = ns\<rparr>)"

definition flex_attention_choices ::
  "bool \<Rightarrow> dtype \<Rightarrow> nat \<Rightarrow> nat \<times> nat \<Rightarrow> fwd_meta list" where
  "flex_attention_choices max_autotune dt head_dim capability =
     map (flex_attention_choice head_dim) (flex_attention_configs max_autotune dt head_dim capability)"

text \<open>\<^verbatim>\<open>configs\<close> in \<^verbatim>\<open>flex_attention_backward\<close>: the default, then the four nested
  loops under \<^verbatim>\<open>config.max_autotune\<close>.\<close>

definition flex_attention_backward_configs ::
  "bool \<Rightarrow> dtype \<Rightarrow> nat \<Rightarrow> nat \<times> nat \<Rightarrow> tile_config list" where
  "flex_attention_backward_configs max_autotune dt head_dim capability =
     [get_default_config_bwd dt head_dim capability] @
     (if max_autotune
      then concat (map (\<lambda>BLOCK1. concat (map (\<lambda>BLOCK2. concat (map (\<lambda>w.
             map (\<lambda>s. (BLOCK1, BLOCK2, w, s)) [1, 3]) [4, 8])) [32, 64])) [32, 64])
      else [])"

definition flex_attention_backward_choice :: "nat \<Rightarrow> tile_config \<Rightarrow> bwd_meta" where
  "flex_attention_backward_choice head_dim cfg =
     (case cfg of (BLOCK1, BLOCK2, nw, ns) \<Rightarrow>
        \<lparr>BLOCK_M1 = BLOCK1, BLOCK_N1 = BLOCK1, BLOCK_M2 = BLOCK2, BLOCK_N2 = BLOCK2,
         bwd_BLOCK_DMODEL = head_dim, bwd_SCORE_MOD_IS_LINEAR = False,
         bwd_num_warps = nw, bwd_num_stages = ns\<rparr>)"

definition flex_attention_backward_choices ::
  "bool \<Rightarrow> dtype \<Rightarrow> nat \<Rightarrow> nat \<times> nat \<Rightarrow> bwd_meta list" where
  "flex_attention_backward_choices max_autotune dt head_dim capability =
     map (flex_attention_backward_choice head_dim)
       (flex_attention_backward_configs max_autotune dt head_dim capability)"

text \<open>The two \<^verbatim>\<open>tl.static_assert\<close> lines of the backward template. Both sit under
  the run-time test on \<^verbatim>\<open>pid\<close>, so both branches are compiled and both assertions
  are evaluated, the DQ branch first, when a candidate is compiled; a failing one
  aborts the compilation of that candidate. A zero modulus is a division by zero.\<close>

definition backward_static_asserts :: "bwd_meta \<Rightarrow> py_error + unit" where
  "backward_static_asserts meta =
     (if BLOCK_N2 meta = 0 then Inl ZeroDivisionError
      else if BLOCK_M2 meta mod BLOCK_N2 meta \<noteq> 0 then Inl StaticAssertionError
      else if BLOCK_M1 meta = 0 then Inl ZeroDivisionError
      else if BLOCK_N1 meta mod BLOCK_M1 meta \<noteq> 0 then Inl StaticAssertionError
      else Inr ())"

section \<open>The score-modification inliner\<close>

text \<open>
  The objects \<^verbatim>\<open>build_subgraph_buffer\<close> handles: arguments of graph nodes (nodes,
  constants, tuples) and the values bound to nodes (IR nodes). Python keeps them in
  one universe, and \<^verbatim>\<open>tree_map\<close> leaves an argument that is no key of \<^verbatim>\<open>env\<close>
  untouched, so one type holds both. \<open>PyNode n\<close> is the graph node with identity
  \<open>n\<close>; \<open>IRData\<close> stands for any IR node other than the two boxes and the input
  buffer, such as a result of a lowering.
\<close>

datatype pyobj =
    PyNone
  | PyInt int
  | PyNode nat
  | PyTuple "pyobj list"
  | SubgraphObj nat
  | TensorBox pyobj
  | StorageBox pyobj
  | InputBuffer string dtype
  | IRData string "pyobj list"

datatype node_op =
  op_placeholder | op_call_function | op_output | op_get_attr | op_call_method | op_call_module

record fx_node =
  nid :: nat
  op :: node_op
  target :: string
  node_args :: "pyobj list"
  node_kwargs :: "(string \<times> pyobj) list"

text \<open>The table \<^verbatim>\<open>lowerings\<close> of the host compiler is a parameter: a missing
  target is a \<^verbatim>\<open>KeyError\<close>, and a lowering may raise.\<close>

type_synonym lowerings =
  "string \<Rightarrow> (pyobj list \<Rightarrow> (string \<times> pyobj) list \<Rightarrow> py_error + pyobj) option"

text \<open>The buffer returned: \<^verbatim>\<open>ComputedBuffer(name=None, layout=FlexibleLayout(...),
  data=output_buffer.data.data)\<close>. Device, dtype and size of the layout are read
  from \<^verbatim>\<open>output_buffer.data\<close>, which is kept as \<open>layout_source\<close>.\<close>

datatype computed_buffer = ComputedBuffer (layout_source: pyobj) (data: pyobj)

text \<open>\<^verbatim>\<open>TensorBox.create(InputBuffer(name, FixedLayout(device, dtype, [1], [1])))\<close>:
  the box of a storage box of the buffer.\<close>

definition create_placeholder :: "string \<Rightarrow> dtype \<Rightarrow> pyobj" where
  "create_placeholder name dt = TensorBox (StorageBox (InputBuffer name dt))"

fun index_to_other_buffers :: "int \<Rightarrow> SubgraphType \<Rightarrow> int" where
  "index_to_other_buffers cnt FWD = cnt - 1"
| "index_to_other_buffers cnt JOINT_FWD = cnt + 3"
| "index_to_other_buffers cnt JOINT_BWD = cnt + 2"

text \<open>Subscripting a tuple: a negative index counts from the end, an index out of
  range raises.\<close>

definition py_getitem :: "'a list \<Rightarrow> int \<Rightarrow> py_error + 'a" where
  "py_getitem xs i =
     (if 0 \<le> i \<and> i < int (length xs) then Inr (xs ! nat i)
      else if i < 0 \<and> - i \<le> int (length xs) then Inr (xs ! nat (int (length xs) + i))
      else Inl IndexError)"

text \<open>\<^verbatim>\<open>tree_map(lambda x: env[x] if x in env else x, ...)\<close>: tuples are traversed,
  every leaf that is a key of \<^verbatim>\<open>env\<close> is replaced by its value.\<close>

fun tree_map_env :: "(nat \<Rightarrow> pyobj option) \<Rightarrow> pyobj \<Rightarrow> pyobj" where
  "tree_map_env env (PyNode n) = (case env n of Some v \<Rightarrow> v | None \<Rightarrow> PyNode n)"
| "tree_map_env env (PyTuple xs) = PyTuple (map (tree_map_env env) xs)"
| "tree_map_env env x = x"

text \<open>\<^verbatim>\<open>env[x]\<close>: only graph nodes are keys.\<close>

fun env_getitem :: "(nat \<Rightarrow> pyobj option) \<Rightarrow> pyobj \<Rightarrow> py_error + pyobj" where
  "env_getitem env (PyNode n) = (case env n of Some v \<Rightarrow> Inr v | None \<Rightarrow> Inl KeyError)"
| "env_getitem env x = Inl KeyError"

text \<open>The local variables of \<^verbatim>\<open>build_subgraph_buffer\<close> that the loop changes:
  \<^verbatim>\<open>cnt\<close>, \<^verbatim>\<open>env\<close> and, through the assignment in the \<^verbatim>\<open>call_function\<close> branch,
  the parameter \<^verbatim>\<open>args\<close> itself.\<close>

record locals =
  cnt :: nat
  env :: "nat \<Rightarrow> pyobj option"
  args :: "pyobj list"

definition visit_placeholder ::
  "pyobj list \<Rightarrow> SubgraphType \<Rightarrow> locals \<Rightarrow> fx_node \<Rightarrow> py_error + locals" where
  "visit_placeholder placeholder_inps graph_type st node =
     (let is_lifted_input = (cnt st \<ge> length placeholder_inps);
          lifted_input_index = index_to_other_buffers (int (cnt st)) graph_type
      in case (if is_lifted_input then py_getitem (args st) lifted_input_index
               else Inr (placeholder_inps ! cnt st)) of
           Inl e \<Rightarrow> Inl e
         | Inr v \<Rightarrow> Inr (st\<lparr>env := (env st)(nid node \<mapsto> v), cnt := cnt st + 1\<rparr>))"

definition visit_call_function :: "lowerings \<Rightarrow> locals \<Rightarrow> fx_node \<Rightarrow> py_error + locals" where
  "visit_call_function lower st node =
     (let args' = map (tree_map_env (env st)) (node_args node);
          kwargs' = map (\<lambda>(k, v). (k, tree_map_env (env st) v)) (node_kwargs node)
      in case lower (target node) of
           None \<Rightarrow> Inl KeyError
         | Some f \<Rightarrow>
             (case f args' kwargs' of
                Inl e \<Rightarrow> Inl e
              | Inr v \<Rightarrow> Inr (st\<lparr>args := args', env := (env st)(nid node \<mapsto> v)\<rparr>)))"

text \<open>\<^verbatim>\<open>node.args[0]\<close> for the forward roles, \<^verbatim>\<open>node.args[0][0]\<close> for the joint
  backward role (subscripting anything but a tuple is a \<^verbatim>\<open>TypeError\<close>).\<close>

definition select_output_node :: "SubgraphType \<Rightarrow> fx_node \<Rightarrow> py_error + pyobj" where
  "select_output_node graph_type node =
     (if graph_type = FWD \<or> graph_type = JOINT_FWD then py_getitem (node_args node) 0
      else (case py_getitem (node_args node) 0 of
              Inl e \<Rightarrow> Inl e
            | Inr (PyTuple xs) \<Rightarrow> py_getitem xs 0
            | Inr _ \<Rightarrow> Inl TypeError))"

fun make_subgraph_buffer :: "pyobj \<Rightarrow> py_error + computed_buffer" where
  "make_subgraph_buffer (TensorBox (StorageBox d)) = Inr (ComputedBuffer (StorageBox d) d)"
| "make_subgraph_buffer (TensorBox _) = Inl AssertionError_StorageBox"
| "make_subgraph_buffer _ = Inl AssertionError_TensorBox"

definition visit_output :: "SubgraphType \<Rightarrow> locals \<Rightarrow> fx_node \<Rightarrow> py_error + computed_buffer" where
  "visit_output graph_type st node =
     (case select_output_node graph_type node of
        Inl e \<Rightarrow> Inl e
      | Inr output_node \<Rightarrow>
          (case env_getitem (env st) output_node of
             Inl e \<Rightarrow> Inl e
           | Inr output_buffer \<Rightarrow> make_subgraph_buffer output_buffer))"

text \<open>The loop over \<^verbatim>\<open>subgraph.graph_module.graph.nodes\<close>; falling off its end is
  the \<^verbatim>\<open>ValueError\<close>.\<close>

fun build_loop ::
  "lowerings \<Rightarrow> pyobj list \<Rightarrow> SubgraphType \<Rightarrow> locals \<Rightarrow> fx_node list
     \<Rightarrow> py_error + computed_buffer" where
  "build_loop lower placeholder_inps graph_type st [] = Inl ValueError"
| "build_loop lower placeholder_inps graph_type st (node # nodes) =
     (if op node = op_placeholder then
        (case visit_placeholder placeholder_inps graph_type st node of
           Inl e \<Rightarrow> Inl e
         | Inr st' \<Rightarrow> build_loop lower placeholder_inps graph_type st' nodes)
      else if op node = op_call_function then
        (case visit_call_function lower st node of
           Inl e \<Rightarrow> Inl e
         | Inr st' \<Rightarrow> build_loop lower placeholder_inps graph_type st' nodes)
      else if op node = op_output then visit_output graph_type st node
      else build_loop lower placeholder_inps graph_type st nodes)"

definition build_subgraph_buffer ::
  "lowerings \<Rightarrow> pyobj list \<Rightarrow> pyobj list \<Rightarrow> fx_node list \<Rightarrow> SubgraphType
     \<Rightarrow> py_error + computed_buffer" where
  "build_subgraph_buffer lower args0 placeholder_inps subgraph graph_type =
     build_loop lower placeholder_inps graph_type \<lparr>cnt = 0, env = Map.empty, args = args0\<rparr> subgraph"

text \<open>The locals after the loop has passed a run of nodes none of which is an
  output node; used to state what holds when a later node is visited.\<close>

fun traverse ::
  "lowerings \<Rightarrow> pyobj list \<Rightarrow> SubgraphType \<Rightarrow> locals \<Rightarrow> fx_node list \<Rightarrow> py_error + locals" where
  "traverse lower placeholder_inps graph_type st [] = Inr st"
| "traverse lower placeholder_inps graph_type st (node # nodes) =
     (if op node = op_placeholder then
        (case visit_placeholder placeholder_inps graph_type st node of
           Inl e \<Rightarrow> Inl e
         | Inr st' \<Rightarrow> traverse lower placeholder_inps graph_type st' nodes)
      else if op node = op_call_function then
        (case visit_call_function lower st node of
           Inl e \<Rightarrow> Inl e
         | Inr st' \<Rightarrow> traverse lower placeholder_inps graph_type st' nodes)
      else traverse lower placeholder_inps graph_type st nodes)"

text \<open>The five sentinels of the forward graphs and the sixth of the joint graph, in
  the order the lowerings create them.\<close>

definition fwd_placeholder_inps :: "dtype \<Rightarrow> pyobj list" where
  "fwd_placeholder_inps dt =
     map (\<lambda>(name, d). create_placeholder name d)
       [(''score'', dt), (''b'', int32), (''h'', int32), (''m'', int32), (''n'', int32)]"

subsection \<open>A score modification with one captured buffer\<close>

text \<open>
  The graph of \<^verbatim>\<open>score * score + bias\<close> with the captured tensor \<^verbatim>\<open>bias\<close> lifted
  to a sixth placeholder, once with every placeholder ahead of the operations and once
  with the lifted placeholder after the first operation; the forward lowering passes
  \<^verbatim>\<open>(query, key, value, subgraph, bias)\<close>. The two lowerings of the table box a
  node that records the operands.
\<close>

definition example_lowerings :: lowerings where
  "example_lowerings t =
     (if t = ''aten.add'' \<or> t = ''aten.mul''
      then Some (\<lambda>a kw. Inr (TensorBox (StorageBox (IRData t a))))
      else None)"

definition mk_node :: "nat \<Rightarrow> node_op \<Rightarrow> string \<Rightarrow> pyobj list \<Rightarrow> fx_node" where
  "mk_node i k t a = \<lparr>nid = i, op = k, target = t, node_args = a, node_kwargs = []\<rparr>"

definition example_args :: "pyobj list" where
  "example_args =
     [create_placeholder ''query'' float32, create_placeholder ''key'' float32,
      create_placeholder ''value'' float32, SubgraphObj 0, create_placeholder ''bias'' float32]"

definition sentinel_nodes :: "fx_node list" where
  "sentinel_nodes =
     [mk_node 0 op_placeholder ''score'' [], mk_node 1 op_placeholder ''b'' [],
      mk_node 2 op_placeholder ''h'' [], mk_node 3 op_placeholder ''m'' [],
      mk_node 4 op_placeholder ''n'' []]"

definition example_graph :: "fx_node list" where
  "example_graph = sentinel_nodes @
     [mk_node 5 op_placeholder ''bias'' [],
      mk_node 6 op_call_function ''aten.mul'' [PyNode 0, PyNode 0],
      mk_node 7 op_call_function ''aten.add'' [PyNode 6, PyNode 5],
      mk_node 8 op_output ''output'' [PyNode 7]]"

definition example_graph_late :: "fx_node list" where
  "example_graph_late = sentinel_nodes @
     [mk_node 6 op_call_function ''aten.mul'' [PyNode 0, PyNode 0],
      mk_node 5 op_placeholder ''bias'' [],
      mk_node 7 op_call_function ''aten.add'' [PyNode 6, PyNode 5],
      mk_node 8 op_output ''output'' [PyNode 7]]"

section \<open>The forward kernel\<close>

text \<open>
  Values of the kernel are floats. A finite float is carried as the real number it
  denotes, with exact arithmetic: rounding, overflow, underflow and the sign of zero
  are left out. Infinities and NaN follow IEEE 754, which is what the masked-row path
  of the kernel depends on.
\<close>

datatype fl = NaN | NInf | PInf | Fin real

fun fneg :: "fl \<Rightarrow> fl" where
  "fneg NaN = NaN"
| "fneg NInf = PInf"
| "fneg PInf = NInf"
| "fneg (Fin x) = Fin (- x)"

fun fadd :: "fl \<Rightarrow> fl \<Rightarrow> fl" where
  "fadd (Fin x) (Fin y) = Fin (x + y)"
| "fadd NaN _ = NaN"
| "fadd _ NaN = NaN"
| "fadd PInf NInf = NaN"
| "fadd NInf PInf = NaN"
| "fadd PInf _ = PInf"
| "fadd _ PInf = PInf"
| "fadd NInf _ = NInf"
| "fadd _ NInf = NInf"

definition fsub :: "fl \<Rightarrow> fl \<Rightarrow> fl" where
  "fsub a b = fadd a (fneg b)"

text \<open>The sign of a product or quotient with an infinite operand; zero times
  infinity is NaN.\<close>

definition signed_inf :: "real \<Rightarrow> fl" where
  "signed_inf x = (if x = 0 then NaN else if 0 < x then PInf else NInf)"

fun fmul :: "fl \<Rightarrow> fl \<Rightarrow> fl" where
  "fmul (Fin x) (Fin y) = Fin (x * y)"
| "fmul NaN _ = NaN"
| "fmul _ NaN = NaN"
| "fmul (Fin x) PInf = signed_inf x"
| "fmul (Fin x) NInf = signed_inf (- x)"
| "fmul PInf (Fin y) = signed_inf y"
| "fmul NInf (Fin y) = signed_inf (- y)"
| "fmul PInf PInf = PInf"
| "fmul NInf NInf = PInf"
| "fmul PInf NInf = NInf"
| "fmul NInf PInf = NInf"

fun fdiv :: "fl \<Rightarrow> fl \<Rightarrow> fl" where
  "fdiv (Fin x) (Fin y) = (if y = 0 then signed_inf x else Fin (x / y))"
| "fdiv NaN _ = NaN"
| "fdiv _ NaN = NaN"
| "fdiv (Fin x) _ = Fin 0"
| "fdiv PInf (Fin y) = (if 0 \<le> y then PInf else NInf)"
| "fdiv NInf (Fin y) = (if 0 \<le> y then NInf else PInf)"
| "fdiv _ _ = NaN"

text \<open>\<^verbatim>\<open>tl.maximum\<close> with its default NaN handling: a NaN operand is dropped.\<close>

fun fmax :: "fl \<Rightarrow> fl \<Rightarrow> fl" where
  "fmax (Fin x) (Fin y) = Fin (max x y)"
| "fmax NaN y = y"
| "fmax x NaN = x"
| "fmax PInf _ = PInf"
| "fmax _ PInf = PInf"
| "fmax NInf y = y"
| "fmax x NInf = x"

fun fexp2 :: "fl \<Rightarrow> fl" where
  "fexp2 NaN = NaN"
| "fexp2 NInf = Fin 0"
| "fexp2 PInf = PInf"
| "fexp2 (Fin x) = Fin (2 powr x)"

fun flog2 :: "fl \<Rightarrow> fl" where
  "flog2 NaN = NaN"
| "flog2 NInf = NaN"
| "flog2 PInf = PInf"
| "flog2 (Fin x) = (if x = 0 then NInf else if x < 0 then NaN else Fin (log 2 x))"

text \<open>Reductions along an axis: \<^verbatim>\<open>tl.sum\<close>, \<^verbatim>\<open>tl.max\<close>, and the inner
  product that \<^verbatim>\<open>tl.dot\<close> computes for one entry.\<close>

primrec fl_sum :: "fl list \<Rightarrow> fl" where
  "fl_sum [] = Fin 0"
| "fl_sum (x # xs) = fadd x (fl_sum xs)"

fun fl_max :: "fl list \<Rightarrow> fl" where
  "fl_max [] = NInf"
| "fl_max [x] = x"
| "fl_max (x # xs) = fmax x (fl_max xs)"

definition fl_dot :: "fl list \<Rightarrow> fl list \<Rightarrow> fl" where
  "fl_dot a b = fl_sum (map2 fmul a b)"

text \<open>\<^verbatim>\<open>range(lo, hi, step)\<close> for a positive step.\<close>

definition py_range :: "nat \<Rightarrow> nat \<Rightarrow> nat \<Rightarrow> nat list" where
  "py_range lo hi step =
     (if step = 0 then [] else map (\<lambda>k. lo + k * step) [0..<(hi - lo + step - 1) div step])"

text \<open>
  A tensor of the kernel is read at (\<^verbatim>\<open>off_hz\<close>, position, feature): the base
  pointers are offset by \<^verbatim>\<open>off_hz * stride_h\<close> and the block pointers address the
  remaining two axes. No load of the kernel checks bounds, so a tensor is a total
  function and a read past the length returns whatever the function holds there.
  The score modification is the function the template inlines at
  \<^verbatim>\<open>modification(...)\<close>, applied to (score, b, h, m, n).
\<close>

type_synonym tensor = "nat \<Rightarrow> nat \<Rightarrow> nat \<Rightarrow> fl"
type_synonym score_mod = "fl \<Rightarrow> nat \<Rightarrow> nat \<Rightarrow> nat \<Rightarrow> nat \<Rightarrow> fl"

definition LOG2E :: real where
  "LOG2E = 1.44269504"

text \<open>\<^verbatim>\<open>qk_scale = 1.0\<close>, multiplied by the constant under
  \<^verbatim>\<open>SCORE_MOD_IS_LINEAR\<close>; and the rescaling of the modified scores that the loop
  applies otherwise.\<close>

definition qk_scale :: "fwd_meta \<Rightarrow> real" where
  "qk_scale meta = (if SCORE_MOD_IS_LINEAR meta then 1.0 * LOG2E else 1.0)"

definition change_of_base :: "fwd_meta \<Rightarrow> fl \<Rightarrow> fl" where
  "change_of_base meta s = (if \<not> SCORE_MOD_IS_LINEAR meta then fmul s (Fin LOG2E) else s)"

text \<open>Every statement of the loop body acts on the rows of the query tile
  independently (broadcasts and reductions along axis 1), so the running statistics
  \<^verbatim>\<open>m_i\<close>, \<^verbatim>\<open>l_i\<close>, \<^verbatim>\<open>acc\<close> are kept as one record per row.\<close>

record row_state =
  m_i :: fl
  l_i :: fl
  acc :: "fl list"

record unit_state =
  K_block_ptr :: nat
  V_block_ptr :: nat
  rows :: "row_state list"

text \<open>Row \<open>i\<close> of \<^verbatim>\<open>q\<close> after the load through \<^verbatim>\<open>Q_block_ptr\<close> (offsets
  \<^verbatim>\<open>(start_m * BLOCK_M, 0)\<close>) and the scaling, and row \<open>i\<close> of
  \<^verbatim>\<open>qk = tl.dot(q, k)\<close> for the key tile \<^verbatim>\<open>K_block_ptr\<close> points at.\<close>

definition q_row :: "fwd_meta \<Rightarrow> tensor \<Rightarrow> nat \<Rightarrow> nat \<Rightarrow> nat \<Rightarrow> fl list" where
  "q_row meta Q off_hz start_m i =
     map (\<lambda>d. fmul (Q off_hz (start_m * BLOCK_M meta + i) d) (Fin (qk_scale meta)))
       [0..<BLOCK_DMODEL meta]"

definition qk_row :: "fwd_meta \<Rightarrow> tensor \<Rightarrow> tensor \<Rightarrow> nat \<Rightarrow> nat \<Rightarrow> nat \<Rightarrow> nat \<Rightarrow> fl list" where
  "qk_row meta Q K off_hz start_m kptr i =
     map (\<lambda>j. fl_dot (q_row meta Q off_hz start_m i)
                 (map (\<lambda>d. K off_hz (kptr + j) d) [0..<BLOCK_DMODEL meta]))
       [0..<BLOCK_N meta]"

text \<open>The loop body for one row, in two parts. First the modified scores:
  \<open>m\<close> is the entry of \<^verbatim>\<open>offs_m\<close> for the row, \<open>start_n + j\<close> the entry of
  \<^verbatim>\<open>n\<close> for column \<open>j\<close>; the modification receives \<^verbatim>\<open>off_hz // H\<close> and
  \<^verbatim>\<open>off_hz % H\<close> as batch and head.\<close>

definition post_mod_scores ::
  "fwd_meta \<Rightarrow> score_mod \<Rightarrow> nat \<Rightarrow> nat \<Rightarrow> nat \<Rightarrow> nat \<Rightarrow> fl list \<Rightarrow> fl list" where
  "post_mod_scores meta modification H off_hz m start_n qk =
     map (change_of_base meta)
       (map2 (\<lambda>s j. modification s (off_hz div H) (off_hz mod H) m (start_n + j))
          qk [0..<BLOCK_N meta])"

text \<open>Then the update of the running statistics, from
  \<^verbatim>\<open>m_ij = tl.maximum(m_i, tl.max(post_mod_scores, 1))\<close> to \<^verbatim>\<open>m_i = m_ij\<close>; the
  value tile is read through \<^verbatim>\<open>V_block_ptr\<close>.\<close>

definition online_softmax_step ::
  "fwd_meta \<Rightarrow> tensor \<Rightarrow> nat \<Rightarrow> nat \<Rightarrow> fl list \<Rightarrow> row_state \<Rightarrow> row_state" where
  "online_softmax_step meta V off_hz vptr post st =
     (let m_ij = fmax (m_i st) (fl_max post);
          alpha = fexp2 (fsub (m_i st) m_ij);
          p = map (\<lambda>s. fexp2 (fsub s m_ij)) post;
          masked_out_rows = (m_ij = NInf);
          alpha = (if \<not> ROWS_GUARANTEED_SAFE meta
                   then (if masked_out_rows then Fin 0 else alpha) else alpha);
          p = (if \<not> ROWS_GUARANTEED_SAFE meta
               then map (\<lambda>x. if masked_out_rows then Fin 0 else x) p else p);
          l_new = fadd (fmul (l_i st) alpha) (fl_sum p);
          acc_scaled = map (\<lambda>a. fmul a alpha) (acc st);
          acc_new = map2 (\<lambda>a d. fadd a
                       (fl_dot p (map (\<lambda>j. V off_hz (vptr + j) d) [0..<BLOCK_N meta])))
                      acc_scaled [0..<BLOCK_DMODEL meta]
      in \<lparr>m_i = m_ij, l_i = l_new, acc = acc_new\<rparr>)"

definition row_update ::
  "fwd_meta \<Rightarrow> score_mod \<Rightarrow> nat \<Rightarrow> tensor \<Rightarrow> nat \<Rightarrow> nat \<Rightarrow> nat \<Rightarrow> nat \<Rightarrow> fl list
     \<Rightarrow> row_state \<Rightarrow> row_state" where
  "row_update meta modification H V off_hz m start_n vptr qk st =
     online_softmax_step meta V off_hz vptr
       (post_mod_scores meta modification H off_hz m start_n qk) st"

text \<open>One iteration of \<^verbatim>\<open>for start_n in range(lo, hi, BLOCK_N)\<close>, both block
  pointers advanced at its end.\<close>

definition loop_body ::
  "fwd_meta \<Rightarrow> score_mod \<Rightarrow> nat \<Rightarrow> tensor \<Rightarrow> tensor \<Rightarrow> tensor \<Rightarrow> nat \<Rightarrow> nat
     \<Rightarrow> unit_state \<Rightarrow> nat \<Rightarrow> unit_state" where
  "loop_body meta modification H Q K V start_m off_hz us start_n =
     \<lparr>K_block_ptr = K_block_ptr us + BLOCK_N meta,
      V_block_ptr = V_block_ptr us + BLOCK_N meta,
      rows = map2 (\<lambda>i st. row_update meta modification H V off_hz
                            (start_m * BLOCK_M meta + i) start_n (V_block_ptr us)
                            (qk_row meta Q K off_hz start_m (K_block_ptr us) i) st)
               [0..<BLOCK_M meta] (rows us)\<rparr>"

definition initial_row :: "fwd_meta \<Rightarrow> row_state" where
  "initial_row meta =
     \<lparr>m_i = fsub (Fin 0) PInf, l_i = Fin 0, acc = replicate (BLOCK_DMODEL meta) (Fin 0)\<rparr>"

definition initial_unit :: "fwd_meta \<Rightarrow> unit_state" where
  "initial_unit meta =
     \<lparr>K_block_ptr = 0, V_block_ptr = 0, rows = replicate (BLOCK_M meta) (initial_row meta)\<rparr>"

text \<open>What the program with ids (\<^verbatim>\<open>start_m\<close>, \<^verbatim>\<open>off_hz\<close>) holds for each row of
  its tile after the loop: the entry of \<^verbatim>\<open>offs_m\<close>, the row of \<^verbatim>\<open>acc / l_i\<close>, and
  \<^verbatim>\<open>lse = m_i + log2(l_i)\<close>.\<close>

definition flex_attention_unit ::
  "fwd_meta \<Rightarrow> score_mod \<Rightarrow> nat \<Rightarrow> nat \<Rightarrow> tensor \<Rightarrow> tensor \<Rightarrow> tensor \<Rightarrow> nat \<Rightarrow> nat
     \<Rightarrow> (nat \<times> fl list \<times> fl) list" where
  "flex_attention_unit meta modification H KV_LEN Q K V start_m off_hz =
     (let final = foldl (loop_body meta modification H Q K V start_m off_hz)
                    (initial_unit meta) (py_range 0 KV_LEN (BLOCK_N meta))
      in map2 (\<lambda>i st. (start_m * BLOCK_M meta + i,
                        map (\<lambda>a. fdiv a (l_i st)) (acc st),
                        fadd (m_i st) (flog2 (l_i st))))
           [0..<BLOCK_M meta] (rows final))"

text \<open>The stores of one program: the output rows under the mask
  \<^verbatim>\<open>idx_m < Q_LEN\<close> at (\<^verbatim>\<open>idx_z\<close>, \<^verbatim>\<open>idx_h\<close>, \<^verbatim>\<open>idx_m\<close>), and, under
  \<^verbatim>\<open>OUTPUT_LOGSUMEXP\<close>, \<^verbatim>\<open>lse\<close> at \<^verbatim>\<open>LSE + off_hz * Q_LEN + offs_m\<close>.\<close>

definition output_stores ::
  "nat \<Rightarrow> nat \<Rightarrow> nat \<Rightarrow> (nat \<times> fl list \<times> fl) list \<Rightarrow> ((nat \<times> nat \<times> nat) \<times> fl list) list" where
  "output_stores H Q_LEN off_hz res =
     map (\<lambda>(m, out, lse). ((off_hz div H, off_hz mod H, m), out))
       (filter (\<lambda>(m, out, lse). m < Q_LEN) res)"

definition lse_stores ::
  "fwd_meta \<Rightarrow> nat \<Rightarrow> nat \<Rightarrow> (nat \<times> fl list \<times> fl) list \<Rightarrow> (nat \<times> fl) list" where
  "lse_stores meta Q_LEN off_hz res =
     (if OUTPUT_LOGSUMEXP meta then map (\<lambda>(m, out, lse). (off_hz * Q_LEN + m, lse)) res else [])"

text \<open>The launch: one program per point of the grid
  \<^verbatim>\<open>(cdiv(Q_LEN, BLOCK_M), Z * H, 1)\<close>. The programs write disjoint addresses when
  \<^verbatim>\<open>BLOCK_M\<close> divides \<^verbatim>\<open>Q_LEN\<close>; the tensors after the launch are read off the list
  of all stores.\<close>

definition grid_units :: "fwd_meta \<Rightarrow> nat \<Rightarrow> nat \<Rightarrow> nat \<Rightarrow> (nat \<times> nat) list" where
  "grid_units meta Z H Q_LEN =
     (case flex_attention_grid Z H Q_LEN (BLOCK_DMODEL meta) meta of
        Inl e \<Rightarrow> []
      | Inr (g0, g1, g2) \<Rightarrow> concat (map (\<lambda>off_hz. map (\<lambda>start_m. (start_m, off_hz)) [0..<g0]) [0..<g1]))"

definition flex_attention_output ::
  "fwd_meta \<Rightarrow> score_mod \<Rightarrow> nat \<Rightarrow> nat \<Rightarrow> nat \<Rightarrow> nat \<Rightarrow> tensor \<Rightarrow> tensor \<Rightarrow> tensor
     \<Rightarrow> (nat \<times> nat \<times> nat) \<Rightarrow> fl list option" where
  "flex_attention_output meta modification Z H Q_LEN KV_LEN Q K V =
     map_of (concat (map (\<lambda>(start_m, off_hz).
        output_stores H Q_LEN off_hz
          (flex_attention_unit meta modification H KV_LEN Q K V start_m off_hz))
        (grid_units meta Z H Q_LEN)))"

definition flex_attention_lse ::
  "fwd_meta \<Rightarrow> score_mod \<Rightarrow> nat \<Rightarrow> nat \<Rightarrow> nat \<Rightarrow> nat \<Rightarrow> tensor \<Rightarrow> tensor \<Rightarrow> tensor
     \<Rightarrow> nat \<Rightarrow> fl option" where
  "flex_attention_lse meta modification Z H Q_LEN KV_LEN Q K V =
     map_of (concat (map (\<lambda>(start_m, off_hz).
        lse_stores meta Q_LEN off_hz
          (flex_attention_unit meta modification H KV_LEN Q K V start_m off_hz))
        (grid_units meta Z H Q_LEN)))"

section \<open>Reference quantities for the forward kernel\<close>

text \<open>
  The statements about the kernel are made for inputs that are finite floats, given
  by real-valued tensors, and for modifications that map finite scores to finite
  scores.
\<close>

type_synonym real_tensor = "nat \<Rightarrow> nat \<Rightarrow> nat \<Rightarrow> real"
type_synonym real_mod = "real \<Rightarrow> nat \<Rightarrow> nat \<Rightarrow> nat \<Rightarrow> nat \<Rightarrow> real"

definition as_floats :: "real_tensor \<Rightarrow> tensor" where
  "as_floats t = (\<lambda>z m d. Fin (t z m d))"

text \<open>The raw score \<^verbatim>\<open>Q K^T\<close> at query \<open>m\<close> and key \<open>n\<close>.\<close>

definition raw_score :: "real_tensor \<Rightarrow> real_tensor \<Rightarrow> nat \<Rightarrow> nat \<Rightarrow> nat \<Rightarrow> nat \<Rightarrow> real" where
  "raw_score q k D off_hz m n = (\<Sum>d<D. q off_hz m d * k off_hz n d)"

text \<open>The exponent of 2 the kernel forms for query \<open>m\<close> and key \<open>n\<close>: under
  \<^verbatim>\<open>SCORE_MOD_IS_LINEAR\<close> the modification of the rescaled score, otherwise the
  rescaled modification of the score.\<close>

definition kernel_exponent ::
  "fwd_meta \<Rightarrow> real_mod \<Rightarrow> nat \<Rightarrow> real_tensor \<Rightarrow> real_tensor \<Rightarrow> nat \<Rightarrow> nat \<Rightarrow> nat \<Rightarrow> real" where
  "kernel_exponent meta f H q k off_hz m n =
     (if SCORE_MOD_IS_LINEAR meta
      then f (LOG2E * raw_score q k (BLOCK_DMODEL meta) off_hz m n)
             (off_hz div H) (off_hz mod H) m n
      else f (raw_score q k (BLOCK_DMODEL meta) off_hz m n)
             (off_hz div H) (off_hz mod H) m n * LOG2E)"

text \<open>Softmax and logsumexp in base 2 over the exponents \<open>e\<close>.\<close>

definition softmax2_row ::
  "(nat \<Rightarrow> real) \<Rightarrow> real_tensor \<Rightarrow> nat \<Rightarrow> nat \<Rightarrow> nat \<Rightarrow> real list" where
  "softmax2_row e v off_hz KV_LEN D =
     map (\<lambda>d. (\<Sum>n<KV_LEN. 2 powr e n * v off_hz n d) / (\<Sum>n<KV_LEN. 2 powr e n)) [0..<D]"

definition logsumexp2 :: "(nat \<Rightarrow> real) \<Rightarrow> nat \<Rightarrow> real" where
  "logsumexp2 e KV_LEN = log 2 (\<Sum>n<KV_LEN. 2 powr e n)"

text \<open>The reference of the specification,
  \<^verbatim>\<open>O[b,h,m,:] = sum_n softmax_n(modify(QK^T[b,h,m,n])) V[b,h,n,:]\<close>, and the natural
  logsumexp of the raw scores of a row, \<^verbatim>\<open>log(sum_n exp(score[m,n]))\<close>.\<close>

definition reference_attention ::
  "real_mod \<Rightarrow> real_tensor \<Rightarrow> real_tensor \<Rightarrow> real_tensor \<Rightarrow> nat \<Rightarrow> nat \<Rightarrow> nat
     \<Rightarrow> nat \<Rightarrow> nat \<Rightarrow> nat \<Rightarrow> real list" where
  "reference_attention f q k v H KV_LEN D b h m =
     map (\<lambda>d. (\<Sum>n<KV_LEN. exp (f (raw_score q k D (b * H + h) m n) b h m n) * v (b * H + h) n d)
               / (\<Sum>n<KV_LEN. exp (f (raw_score q k D (b * H + h) m n) b h m n)))
       [0..<D]"

definition natural_logsumexp :: "real_tensor \<Rightarrow> real_tensor \<Rightarrow> nat \<Rightarrow> nat \<Rightarrow> nat \<Rightarrow> nat \<Rightarrow> real" where
  "natural_logsumexp q k D KV_LEN off_hz m = ln (\<Sum>n<KV_LEN. exp (raw_score q k D off_hz m n))"

text \<open>The running statistics of row \<open>i\<close> of the program (\<^verbatim>\<open>start_m\<close>,
  \<^verbatim>\<open>off_hz\<close>) after \<open>T\<close> iterations of the loop, with the block pointers and
  \<^verbatim>\<open>start_n\<close> at the multiples of \<^verbatim>\<open>BLOCK_N\<close> they hold then.\<close>

definition row_after ::
  "fwd_meta \<Rightarrow> score_mod \<Rightarrow> nat \<Rightarrow> tensor \<Rightarrow> tensor \<Rightarrow> tensor \<Rightarrow> nat \<Rightarrow> nat \<Rightarrow> nat \<Rightarrow> nat
    \<Rightarrow> row_state" where
  "row_after meta modification H Q K V start_m off_hz i T =
     foldl (\<lambda>st t. row_update meta modification H V off_hz (start_m * BLOCK_M meta + i)
                      (t * BLOCK_N meta) (t * BLOCK_N meta)
                      (qk_row meta Q K off_hz start_m (t * BLOCK_N meta) i) st)
       (initial_row meta) [0..<T]"

subsection \<open>Modifications and tensors used as inputs\<close>

definition identity_mod :: score_mod where
  "identity_mod score b h m n = score"

text \<open>A mask that lets a query attend only strictly earlier keys: query 0 has no
  key left.\<close>

definition strict_causal_mask :: score_mod where
  "strict_causal_mask score b h m n = (if n < m then score else NInf)"

text \<open>An additive bias of 1 on key 0, on floats and on reals.\<close>

definition first_key_bias :: score_mod where
  "first_key_bias score b h m n = fadd score (Fin (if n = 0 then 1 else 0))"

definition first_key_bias_real :: real_mod where
  "first_key_bias_real x b h m n = x + (if n = 0 then 1 else 0)"

definition const_tensor :: "real \<Rightarrow> real_tensor" where
  "const_tensor c = (\<lambda>z m d. c)"

definition first_key_indicator :: real_tensor where
  "first_key_indicator = (\<lambda>z n d. if n = 0 then 1 else 0)"

section \<open>The backward lowering\<close>

text \<open>
  The services of the host compiler that \<^verbatim>\<open>flex_attention_backward\<close> calls are
  parameters: the table of lowerings, the size and dtype of a buffer, \<^verbatim>\<open>full\<close>,
  \<^verbatim>\<open>empty_strided\<close>, \<^verbatim>\<open>autotune_select_algorithm\<close>, the node list of a subgraph,
  \<^verbatim>\<open>config.max_autotune\<close> and the device capability. Devices are left out, and
  \<^verbatim>\<open>realize()\<close>, which changes no binding, is not modelled. The candidates are the
  calls of \<^verbatim>\<open>maybe_append_choice\<close> in their order.
\<close>

record bwd_choice =
  input_nodes :: "pyobj list"
  subgraphs :: "computed_buffer list"
  mutated_inputs :: "pyobj list"
  call_sizes :: "nat list"
  choice_meta :: bwd_meta

record host =
  host_lowerings :: lowerings
  get_size :: "pyobj \<Rightarrow> nat list"
  get_dtype :: "pyobj \<Rightarrow> dtype"
  full :: "nat list \<Rightarrow> real \<Rightarrow> dtype \<Rightarrow> pyobj"
  empty_strided :: "nat list \<Rightarrow> dtype \<Rightarrow> pyobj"
  autotune_select_algorithm ::
    "string \<Rightarrow> bwd_choice list \<Rightarrow> pyobj list \<Rightarrow> dtype \<times> nat list \<Rightarrow> pyobj"
  graph_nodes :: "pyobj \<Rightarrow> fx_node list"
  max_autotune :: bool
  device_capability :: "nat \<times> nat"

text \<open>\<^verbatim>\<open>lowerings[target](*args, **kwargs)\<close>.\<close>

definition call_lowering ::
  "host \<Rightarrow> string \<Rightarrow> pyobj list \<Rightarrow> (string \<times> pyobj) list \<Rightarrow> py_error + pyobj" where
  "call_lowering hst tgt a kw = (case host_lowerings hst tgt of None \<Rightarrow> Inl KeyError | Some f \<Rightarrow> f a kw)"

text \<open>The part of \<^verbatim>\<open>flex_attention_backward\<close> after the two subgraph buffers are
  built: delta, the two gradient buffers, the candidates, and the returned triple.\<close>

definition backward_outputs ::
  "host \<Rightarrow> pyobj list \<Rightarrow> computed_buffer \<Rightarrow> computed_buffer \<Rightarrow> py_error + (pyobj \<times> pyobj \<times> pyobj)" where
  "backward_outputs hst a fw_subgraph_buffer joint_subgraph_buffer =
     (case a of
        query # key # val # out # logsumexp # grad_out # fw_graph # joint_graph # other_buffers \<Rightarrow>
          (let dt = get_dtype hst query;
               layout_k = (get_dtype hst key, get_size hst key)
           in case call_lowering hst ''aten.mul'' [out, grad_out] [] of
                Inl e \<Rightarrow> Inl e
              | Inr mul_delta \<Rightarrow>
           (case call_lowering hst ''aten.sum'' [mul_delta] [(''axis'', PyInt (- 1))] of
                Inl e \<Rightarrow> Inl e
              | Inr delta \<Rightarrow>
           (let grad_query = full hst (get_size hst query) 0.0 dt;
                grad_value = empty_strided hst (get_size hst val) dt
            in case py_getitem (get_size hst query) (- 1) of
                 Inl e \<Rightarrow> Inl e
               | Inr head_dim \<Rightarrow>
            (case py_getitem (get_size hst key) 2 of
                 Inl e \<Rightarrow> Inl e
               | Inr kv_len \<Rightarrow>
            (let configs = flex_attention_backward_configs (max_autotune hst) dt head_dim
                             (device_capability hst);
                 choices = map (\<lambda>cfg.
                     \<lparr>input_nodes = [query, key, val, out, logsumexp, delta, grad_out,
                                     grad_query, grad_value],
                      subgraphs = [fw_subgraph_buffer, joint_subgraph_buffer],
                      mutated_inputs = [grad_query, grad_value],
                      call_sizes = get_size hst query @ [kv_len],
                      choice_meta = flex_attention_backward_choice head_dim cfg\<rparr>) configs;
                 inputs_for_autotuning =
                   [query, key, val, out, logsumexp, delta, grad_out, grad_query, grad_value]
                   @ other_buffers;
                 grad_key = autotune_select_algorithm hst ''flex_attention_backward'' choices
                              inputs_for_autotuning layout_k
             in Inr (grad_query, grad_key, grad_value))))))
      | _ \<Rightarrow> Inl ValueError)"

definition flex_attention_backward :: "host \<Rightarrow> pyobj list \<Rightarrow> py_error + (pyobj \<times> pyobj \<times> pyobj)" where
  "flex_attention_backward hst a =
     (case a of
        query # key # val # out # logsumexp # grad_out # fw_graph # joint_graph # other_buffers \<Rightarrow>
          (let dt = get_dtype hst query;
               fwd_inps = fwd_placeholder_inps dt
           in case build_subgraph_buffer (host_lowerings hst) a fwd_inps (graph_nodes hst fw_graph)
                     JOINT_FWD of
                Inl e \<Rightarrow> Inl e
              | Inr fw_subgraph_buffer \<Rightarrow>
                  (let joint_placeholder_inps =
                         fwd_inps @ [create_placeholder ''grad_score_mod'' dt]
                   in case build_subgraph_buffer (host_lowerings hst) a joint_placeholder_inps
                             (graph_nodes hst joint_graph) JOINT_BWD of
                        Inl e \<Rightarrow> Inl e
                      | Inr joint_subgraph_buffer \<Rightarrow>
                          backward_outputs hst a fw_subgraph_buffer joint_subgraph_buffer))
      | _ \<Rightarrow> Inl ValueError)"

subsection \<open>What the lowered multiply and sum denote\<close>

text \<open>
  Modelled from the spec: the host's lowerings of \<^verbatim>\<open>aten.mul\<close> and \<^verbatim>\<open>aten.sum\<close>,
  which are not part of this file. A tensor value is a shape with a function on index
  lists; the multiply is elementwise, the sum with \<^verbatim>\<open>axis=-1\<close> adds along the last
  axis (the specification's \<open>Delta[b,h,m] = \<Sum>d. Output[b,h,m,d] * GradOutput[b,h,m,d]\<close>).
  Each lowering boxes a node that records its operands.
\<close>

type_synonym tensor_value = "nat list \<times> (nat list \<Rightarrow> real)"

definition reference_lowerings :: lowerings where
  "reference_lowerings t =
     (if t = ''aten.mul'' then
        Some (\<lambda>a kw. case a of [x, y] \<Rightarrow> Inr (TensorBox (StorageBox (IRData ''aten.mul'' [x, y])))
                               | _ \<Rightarrow> Inl TypeError)
      else if t = ''aten.sum'' then
        Some (\<lambda>a kw. case (a, kw) of
                        ([x], [(name, PyInt ax)]) \<Rightarrow>
                          if name = ''axis''
                          then Inr (TensorBox (StorageBox (IRData ''aten.sum'' [x, PyInt ax])))
                          else Inl TypeError
                      | _ \<Rightarrow> Inl TypeError)
      else None)"

fun denote :: "(string \<Rightarrow> tensor_value) \<Rightarrow> pyobj \<Rightarrow> tensor_value option" where
  "denote \<rho> (TensorBox x) = denote \<rho> x"
| "denote \<rho> (StorageBox x) = denote \<rho> x"
| "denote \<rho> (InputBuffer name dt) = Some (\<rho> name)"
| "denote \<rho> (IRData t [x, y]) =
     (if t = ''aten.mul'' then
        (case (denote \<rho> x, denote \<rho> y) of
           (Some (sx, fx), Some (sy, fy)) \<Rightarrow>
             if sx = sy then Some (sx, \<lambda>idx. fx idx * fy idx) else None
         | _ \<Rightarrow> None)
      else if t = ''aten.sum'' \<and> y = PyInt (- 1) then
        (case denote \<rho> x of
           Some (sx, fx) \<Rightarrow>
             if sx = [] then None
             else Some (butlast sx, \<lambda>idx. \<Sum>d<last sx. fx (idx @ [d]))
         | None \<Rightarrow> None)
      else None)"
| "denote \<rho> _ = None"

text \<open>A host for evaluating the lowering on a concrete call: every buffer has shape
  \<open>(2, 4, 256, 64)\<close> and dtype float32, \<^verbatim>\<open>full\<close>, \<^verbatim>\<open>empty_strided\<close> and the
  autotuner return nodes that record their arguments, both subgraphs are the identity
  graph.\<close>

definition identity_graph :: "fx_node list" where
  "identity_graph = sentinel_nodes @ [mk_node 5 op_output ''output'' [PyNode 0]]"

definition joint_identity_graph :: "fx_node list" where
  "joint_identity_graph = sentinel_nodes @
     [mk_node 5 op_placeholder ''grad_score_mod'' [],
      mk_node 6 op_output ''output''
        [PyTuple [PyNode 5, PyNone, PyNone, PyNone, PyNone]]]"

definition example_host :: host where
  "example_host =
     \<lparr>host_lowerings = reference_lowerings,
      get_size = (\<lambda>x. [2, 4, 256, 64]),
      get_dtype = (\<lambda>x. float32),
      full = (\<lambda>size c dt. TensorBox (StorageBox
                (IRData ''full'' (map (\<lambda>n. PyInt (int n)) size)))),
      empty_strided = (\<lambda>size dt. TensorBox (StorageBox
                (IRData ''empty_strided'' (map (\<lambda>n. PyInt (int n)) size)))),
      autotune_select_algorithm = (\<lambda>name choices inputs layout. TensorBox (StorageBox
                (IRData name inputs))),
      graph_nodes = (\<lambda>g. if g = SubgraphObj 0 then identity_graph else joint_identity_graph),
      max_autotune = False,
      device_capability = (8, 0)\<rparr>"

definition example_backward_args :: "pyobj list" where
  "example_backward_args =
     [create_placeholder ''query'' float32, create_placeholder ''key'' float32,
      create_placeholder ''value'' float32, create_placeholder ''out'' float32,
      create_placeholder ''logsumexp'' float32, create_placeholder ''grad_out'' float32,
      SubgraphObj 0, SubgraphObj 1]"

text \<open>The nodes that call produces for delta and the two gradient buffers, and
  values for its inputs: \<^verbatim>\<open>out\<close> is 2 everywhere, every other buffer 3.\<close>

definition example_delta :: pyobj where
  "example_delta =
     TensorBox (StorageBox (IRData ''aten.sum''
       [TensorBox (StorageBox (IRData ''aten.mul''
          [create_placeholder ''out'' float32, create_placeholder ''grad_out'' float32])),
        PyInt (- 1)]))"

definition example_grad_query :: pyobj where
  "example_grad_query =
     TensorBox (StorageBox (IRData ''full'' [PyInt 2, PyInt 4, PyInt 256, PyInt 64]))"

definition example_grad_value :: pyobj where
  "example_grad_value =
     TensorBox (StorageBox (IRData ''empty_strided'' [PyInt 2, PyInt 4, PyInt 256, PyInt 64]))"

definition example_values :: "string \<Rightarrow> tensor_value" where
  "example_values name = ([2, 4, 256, 64], \<lambda>idx. if name = ''out'' then 2 else 3)"

section \<open>Theorems\<close>

subsection \<open>Launch grids\<close>

lemma cdiv_ceiling:
  assumes "0 < y"
  shows "cdiv x y = Inr (nat \<lceil>real x / real y\<rceil>)"
proof -
  define q r where "q = x div y" and "r = x mod y"
  have x: "x = q * y + r" and r: "r < y"
    using assms by (simp_all add: q_def r_def)
  have "(x + y - 1) div y = nat \<lceil>real x / real y\<rceil>"
  proof (cases "r = 0")
    case True
    have "(q * y + y - 1) div y = q"
      using assms by (intro div_nat_eqI) (simp_all add: algebra_simps)
    moreover have "nat \<lceil>real (q * y) / real y\<rceil> = q"
      using assms by simp
    ultimately show ?thesis using x True by simp
  next
    case False
    have "(q * y + r + y - 1) div y = q + 1"
      using r False assms by (intro div_nat_eqI) (simp_all add: algebra_simps)
    moreover have "\<lceil>real (q * y + r) / real y\<rceil> = int q + 1"
    proof (rule ceiling_unique)
      show "real_of_int (int q + 1) - 1 < real (q * y + r) / real y"
        using assms r False by (simp add: field_simps)
      have "real r \<le> real y" using r by simp
      then show "real (q * y + r) / real y \<le> real_of_int (int q + 1)"
        using assms by (simp add: field_simps)
    qed
    ultimately show ?thesis using x by simp
  qed
  then show ?thesis using assms by (simp add: cdiv_def)
qed

lemma floor_eq_ceiling_when_divisible:
  assumes "0 < y" and "y dvd x"
  shows "x div y = nat \<lceil>real x / real y\<rceil>"
proof -
  from assms(2) obtain q where q: "x = y * q" ..
  have "nat \<lceil>real (y * q) / real y\<rceil> = q" using assms(1) by simp
  then show ?thesis using q assms(1) by simp
qed

text \<open>
  C6, as stated, fails: with 100 keys and \<open>BLOCK_N1 = 64\<close> the backward grid holds
  \<open>ceil(100 / 64) = 2\<close> key/value-phase units on its first axis, yet the unit with
  first-axis index 1 runs the query phase, because the kernel compares the index
  against \<open>KV_LEN // BLOCK_N1 = 1\<close>.
\<close>

theorem backward_dispatch_counterexample:
  "flex_attention_backward_grid 1 1 128 64 100 (flex_attention_backward_choice 64 (64, 64, 4, 1))
     = Inr (2 + 2, 1, 1)
   \<and> cdiv 100 (BLOCK_N1 (flex_attention_backward_choice 64 (64, 64, 4, 1))) = Inr 2
   \<and> (1::nat) < 2
   \<and> backward_dispatch 100 (flex_attention_backward_choice 64 (64, 64, 4, 1)) 1 = DQ_phase 0
   \<and> \<not> is_DKDV (backward_dispatch 100 (flex_attention_backward_choice 64 (64, 64, 4, 1)) 1)"
  by (simp add: flex_attention_backward_grid_def flex_attention_backward_choice_def cdiv_def
      backward_dispatch_def NUM_KV_BLOCKS_def)

text \<open>
  C6, amended: for positive tile sizes the forward grid is
  \<open>(ceil(query_length / BLOCK_M), batch * heads, 1)\<close> and the backward grid is
  \<open>(ceil(query_length / BLOCK_M2) + ceil(kv_length / BLOCK_N1), 1, batch * heads)\<close>;
  a backward unit runs the key/value phase exactly when its first-axis index is below
  \<open>kv_length // BLOCK_N1\<close> (rounded down) and the query phase otherwise; that bound
  equals the \<open>ceil(kv_length / BLOCK_N1)\<close> of the grid when \<open>BLOCK_N1\<close> divides the
  key/value length.
\<close>

theorem launch_grids_and_dispatch:
  "(0 < BLOCK_M fm \<longrightarrow>
      flex_attention_grid b h q d fm = Inr (nat \<lceil>real q / real (BLOCK_M fm)\<rceil>, b * h, 1))
   \<and> (0 < BLOCK_M2 bm \<and> 0 < BLOCK_N1 bm \<longrightarrow>
      flex_attention_backward_grid b h q d kv bm =
        Inr (nat \<lceil>real q / real (BLOCK_M2 bm)\<rceil> + nat \<lceil>real kv / real (BLOCK_N1 bm)\<rceil>, 1, b * h))
   \<and> (is_DKDV (backward_dispatch kv bm pid) \<longleftrightarrow> pid < kv div BLOCK_N1 bm)
   \<and> (\<not> is_DKDV (backward_dispatch kv bm pid) \<longleftrightarrow>
        backward_dispatch kv bm pid = DQ_phase ((pid - kv div BLOCK_N1 bm) * BLOCK_M2 bm))
   \<and> (0 < BLOCK_N1 bm \<and> BLOCK_N1 bm dvd kv \<longrightarrow>
        (is_DKDV (backward_dispatch kv bm pid) \<longleftrightarrow> pid < nat \<lceil>real kv / real (BLOCK_N1 bm)\<rceil>))"
proof (intro conjI impI)
  assume "0 < BLOCK_M fm"
  then show "flex_attention_grid b h q d fm = Inr (nat \<lceil>real q / real (BLOCK_M fm)\<rceil>, b * h, 1)"
    by (simp add: flex_attention_grid_def cdiv_ceiling)
next
  assume "0 < BLOCK_M2 bm \<and> 0 < BLOCK_N1 bm"
  then show "flex_attention_backward_grid b h q d kv bm =
      Inr (nat \<lceil>real q / real (BLOCK_M2 bm)\<rceil> + nat \<lceil>real kv / real (BLOCK_N1 bm)\<rceil>, 1, b * h)"
    by (simp add: flex_attention_backward_grid_def cdiv_ceiling)
next
  show "is_DKDV (backward_dispatch kv bm pid) \<longleftrightarrow> pid < kv div BLOCK_N1 bm"
    by (auto simp: backward_dispatch_def NUM_KV_BLOCKS_def)
next
  show "\<not> is_DKDV (backward_dispatch kv bm pid) \<longleftrightarrow>
        backward_dispatch kv bm pid = DQ_phase ((pid - kv div BLOCK_N1 bm) * BLOCK_M2 bm)"
    by (auto simp: backward_dispatch_def NUM_KV_BLOCKS_def)
next
  assume "0 < BLOCK_N1 bm \<and> BLOCK_N1 bm dvd kv"
  then have e: "nat \<lceil>real kv / real (BLOCK_N1 bm)\<rceil> = kv div BLOCK_N1 bm"
    by (simp add: floor_eq_ceiling_when_divisible)
  show "is_DKDV (backward_dispatch kv bm pid) \<longleftrightarrow> pid < nat \<lceil>real kv / real (BLOCK_N1 bm)\<rceil>"
    unfolding e by (auto simp: backward_dispatch_def NUM_KV_BLOCKS_def)
qed

theorem launch_grids_and_dispatch_witness:
  "flex_attention_grid 2 4 256 64 (flex_attention_choice 64 (128, 64, 4, 3)) = Inr (2, 8, 1)
   \<and> flex_attention_backward_grid 2 4 256 64 128 (flex_attention_backward_choice 64 (64, 64, 4, 1))
       = Inr (4 + 2, 1, 8)
   \<and> is_DKDV (backward_dispatch 128 (flex_attention_backward_choice 64 (64, 64, 4, 1)) 1)
   \<and> backward_dispatch 128 (flex_attention_backward_choice 64 (64, 64, 4, 1)) 3 = DQ_phase 64"
proof -
  have d: "BLOCK_N1 (flex_attention_backward_choice 64 (64, 64, 4, 1)) dvd (128::nat)"
    by (simp add: flex_attention_backward_choice_def)
  have "\<not> is_DKDV (backward_dispatch 128 (flex_attention_backward_choice 64 (64, 64, 4, 1)) 3)"
    using launch_grids_and_dispatch
      [of "flex_attention_choice 64 (128, 64, 4, 3)" 2 4 256 64
          "flex_attention_backward_choice 64 (64, 64, 4, 1)" 128 3]
    by (simp add: flex_attention_backward_choice_def)
  then show ?thesis
    using d launch_grids_and_dispatch
      [of "flex_attention_choice 64 (128, 64, 4, 3)" 2 4 256 64
          "flex_attention_backward_choice 64 (64, 64, 4, 1)" 128 1]
      launch_grids_and_dispatch
      [of "flex_attention_choice 64 (128, 64, 4, 3)" 2 4 256 64
          "flex_attention_backward_choice 64 (64, 64, 4, 1)" 128 3]
    by (simp add: flex_attention_choice_def flex_attention_backward_choice_def)
qed

subsection \<open>Backward tile sizes\<close>

lemma flex_attention_backward_choice_square:
  "BLOCK_M1 (flex_attention_backward_choice hdim cfg) = BLOCK_N1 (flex_attention_backward_choice hdim cfg)
   \<and> BLOCK_M2 (flex_attention_backward_choice hdim cfg) = BLOCK_N2 (flex_attention_backward_choice hdim cfg)
   \<and> BLOCK_M1 (flex_attention_backward_choice hdim cfg) = fst cfg
   \<and> BLOCK_M2 (flex_attention_backward_choice hdim cfg) = fst (snd cfg)"
  by (cases cfg) (simp add: flex_attention_backward_choice_def)

lemma flex_attention_backward_configs_positive:
  assumes "cfg \<in> set (flex_attention_backward_configs ma dt hdim cap)"
  shows "0 < fst cfg \<and> 0 < fst (snd cfg)"
  using assms
  by (auto simp: flex_attention_backward_configs_def get_default_config_bwd_def split: if_splits)



subsection \<open>The score-modification inliner\<close>

lemma traverse_append:
  "traverse L ph gt st (xs @ ys) =
     (case traverse L ph gt st xs of Inl e \<Rightarrow> Inl e | Inr st' \<Rightarrow> traverse L ph gt st' ys)"
  by (induction xs arbitrary: st) (auto split: sum.splits)

lemma build_loop_append:
  assumes "\<forall>n \<in> set pre. op n \<noteq> op_output"
  shows "build_loop L ph gt st (pre @ rest) =
     (case traverse L ph gt st pre of Inl e \<Rightarrow> Inl e | Inr st' \<Rightarrow> build_loop L ph gt st' rest)"
  using assms by (induction pre arbitrary: st) (auto split: sum.splits)

lemma visit_placeholder_args:
  "visit_placeholder ph gt st n = Inr st' \<Longrightarrow> args st' = args st \<and> cnt st' = cnt st + 1"
  by (auto simp: visit_placeholder_def Let_def split: sum.splits if_splits)

lemma visit_call_function_args:
  "visit_call_function L st n = Inr st' \<Longrightarrow>
     args st' = map (tree_map_env (env st)) (node_args n) \<and> cnt st' = cnt st"
  by (auto simp: visit_call_function_def Let_def split: sum.splits option.splits)

lemma traverse_cnt:
  "traverse L ph gt st pre = Inr st' \<Longrightarrow>
     cnt st' = cnt st + length (filter (\<lambda>n. op n = op_placeholder) pre)"
proof (induction pre arbitrary: st)
  case Nil then show ?case by simp
next
  case (Cons n pre)
  then show ?case
    by (auto split: sum.splits if_splits dest!: visit_placeholder_args visit_call_function_args)
qed

lemma traverse_args_unchanged:
  "traverse L ph gt st pre = Inr st' \<Longrightarrow> \<forall>n \<in> set pre. op n \<noteq> op_call_function \<Longrightarrow>
     args st' = args st"
proof (induction pre arbitrary: st)
  case Nil then show ?case by simp
next
  case (Cons n pre)
  then show ?case
    by (auto split: sum.splits if_splits dest!: visit_placeholder_args)
qed

lemma traverse_args_after_call:
  assumes "traverse L ph gt st0 (pre1 @ c # pre2) = Inr st"
    and "traverse L ph gt st0 pre1 = Inr st1"
    and "op c = op_call_function"
    and "\<forall>n \<in> set pre2. op n \<noteq> op_call_function"
  shows "args st = map (tree_map_env (env st1)) (node_args c)"
proof -
  from assms(1,2,3) obtain st2 where c: "visit_call_function L st1 c = Inr st2"
    and r: "traverse L ph gt st2 pre2 = Inr st"
    by (auto simp: traverse_append split: sum.splits)
  from traverse_args_unchanged[OF r assms(4)] visit_call_function_args[OF c]
  show ?thesis by simp
qed

lemmas ex_defs = example_lowerings_def mk_node_def example_args_def sentinel_nodes_def
  example_graph_def example_graph_late_def fwd_placeholder_inps_def create_placeholder_def
  build_subgraph_buffer_def visit_placeholder_def visit_call_function_def visit_output_def
  select_output_node_def py_getitem_def Let_def

text \<open>
  C10: let the loop reach a lifted placeholder (one whose running index \<open>cnt\<close>, the
  number of placeholder nodes before it, is at least the number of sentinels). If no
  \<^verbatim>\<open>call_function\<close> node precedes it, it is resolved against the arguments the
  kernel was called with. If one does, then it is resolved against the mapped
  argument tuple of the last \<^verbatim>\<open>call_function\<close> node before it, which the
  \<^verbatim>\<open>call_function\<close> branch stored under the name \<^verbatim>\<open>args\<close>.
\<close>

theorem lifted_placeholder_resolution:
  "traverse lower ph gt \<lparr>cnt = 0, env = Map.empty, args = args0\<rparr> pre = Inr st
   \<and> (\<forall>n \<in> set pre. op n \<noteq> op_output)
   \<and> op node = op_placeholder \<and> length ph \<le> cnt st
   \<longrightarrow>
     cnt st = length (filter (\<lambda>n. op n = op_placeholder) pre)
   \<and> ((\<forall>n \<in> set pre. op n \<noteq> op_call_function) \<longrightarrow>
        build_subgraph_buffer lower args0 ph (pre @ node # rest) gt =
          (case py_getitem args0 (index_to_other_buffers (int (cnt st)) gt) of
             Inl e \<Rightarrow> Inl e
           | Inr v \<Rightarrow> build_loop lower ph gt
                        (st\<lparr>env := (env st)(nid node \<mapsto> v), cnt := cnt st + 1\<rparr>) rest))
   \<and> (\<forall>pre1 c pre2 st1.
         pre = pre1 @ c # pre2 \<and> op c = op_call_function
         \<and> (\<forall>n \<in> set pre2. op n \<noteq> op_call_function)
         \<and> traverse lower ph gt \<lparr>cnt = 0, env = Map.empty, args = args0\<rparr> pre1 = Inr st1
         \<longrightarrow>
         build_subgraph_buffer lower args0 ph (pre @ node # rest) gt =
          (case py_getitem (map (tree_map_env (env st1)) (node_args c))
                  (index_to_other_buffers (int (cnt st)) gt) of
             Inl e \<Rightarrow> Inl e
           | Inr v \<Rightarrow> build_loop lower ph gt
                        (st\<lparr>env := (env st)(nid node \<mapsto> v), cnt := cnt st + 1\<rparr>) rest))"
proof (intro impI, elim conjE)
  let ?st0 = "\<lparr>cnt = 0, env = Map.empty, args = args0\<rparr>"
  assume tr: "traverse lower ph gt ?st0 pre = Inr st"
    and noout: "\<forall>n \<in> set pre. op n \<noteq> op_output"
    and ph: "op node = op_placeholder" and lifted: "length ph \<le> cnt st"
  have step: "build_subgraph_buffer lower args0 ph (pre @ node # rest) gt =
      (case py_getitem (args st) (index_to_other_buffers (int (cnt st)) gt) of
         Inl e \<Rightarrow> Inl e
       | Inr v \<Rightarrow> build_loop lower ph gt
                    (st\<lparr>env := (env st)(nid node \<mapsto> v), cnt := cnt st + 1\<rparr>) rest)"
    using tr ph lifted
    by (simp add: build_subgraph_buffer_def build_loop_append[OF noout] visit_placeholder_def
        split: sum.splits)
  have c: "cnt st = length (filter (\<lambda>n. op n = op_placeholder) pre)"
    using traverse_cnt[OF tr] by simp
  have a: "(\<forall>n \<in> set pre. op n \<noteq> op_call_function) \<longrightarrow> args st = args0"
    using traverse_args_unchanged[OF tr] by simp
  have b: "\<forall>pre1 c pre2 st1.
         pre = pre1 @ c # pre2 \<and> op c = op_call_function
         \<and> (\<forall>n \<in> set pre2. op n \<noteq> op_call_function)
         \<and> traverse lower ph gt ?st0 pre1 = Inr st1
         \<longrightarrow> args st = map (tree_map_env (env st1)) (node_args c)"
    using traverse_args_after_call tr by blast
  show "cnt st = length (filter (\<lambda>n. op n = op_placeholder) pre)
   \<and> ((\<forall>n \<in> set pre. op n \<noteq> op_call_function) \<longrightarrow>
        build_subgraph_buffer lower args0 ph (pre @ node # rest) gt =
          (case py_getitem args0 (index_to_other_buffers (int (cnt st)) gt) of
             Inl e \<Rightarrow> Inl e
           | Inr v \<Rightarrow> build_loop lower ph gt
                        (st\<lparr>env := (env st)(nid node \<mapsto> v), cnt := cnt st + 1\<rparr>) rest))
   \<and> (\<forall>pre1 c pre2 st1.
         pre = pre1 @ c # pre2 \<and> op c = op_call_function
         \<and> (\<forall>n \<in> set pre2. op n \<noteq> op_call_function)
         \<and> traverse lower ph gt ?st0 pre1 = Inr st1
         \<longrightarrow>
         build_subgraph_buffer lower args0 ph (pre @ node # rest) gt =
          (case py_getitem (map (tree_map_env (env st1)) (node_args c))
                  (index_to_other_buffers (int (cnt st)) gt) of
             Inl e \<Rightarrow> Inl e
           | Inr v \<Rightarrow> build_loop lower ph gt
                        (st\<lparr>env := (env st)(nid node \<mapsto> v), cnt := cnt st + 1\<rparr>) rest))"
    using step c a b by (metis (no_types, lifting))
qed

theorem lifted_placeholder_resolution_witness:
  "build_subgraph_buffer example_lowerings example_args (fwd_placeholder_inps float32)
      ((sentinel_nodes @ [mk_node 6 op_call_function ''aten.mul'' [PyNode 0, PyNode 0]])
        @ mk_node 5 op_placeholder ''bias'' []
        # [mk_node 7 op_call_function ''aten.add'' [PyNode 6, PyNode 5],
           mk_node 8 op_output ''output'' [PyNode 7]]) FWD
     = Inl IndexError
   \<and> py_getitem
        [create_placeholder ''score'' float32, create_placeholder ''score'' float32]
        (index_to_other_buffers 5 FWD) = Inl IndexError
   \<and> py_getitem example_args (index_to_other_buffers 5 FWD)
        = Inr (create_placeholder ''bias'' float32)"
proof -
  let ?st0 = "\<lparr>cnt = 0, env = Map.empty, args = example_args\<rparr>"
  let ?ph = "fwd_placeholder_inps float32"
  let ?c = "mk_node 6 op_call_function ''aten.mul'' [PyNode 0, PyNode 0]"
  let ?pre = "sentinel_nodes @ [?c]"
  let ?node = "mk_node 5 op_placeholder ''bias'' []"
  let ?rest = "[mk_node 7 op_call_function ''aten.add'' [PyNode 6, PyNode 5],
           mk_node 8 op_output ''output'' [PyNode 7]]"
  obtain st1 where st1: "traverse example_lowerings ?ph FWD ?st0 sentinel_nodes = Inr st1"
    by (simp add: ex_defs)
  obtain st where st: "traverse example_lowerings ?ph FWD ?st0 ?pre = Inr st"
    by (simp add: ex_defs)
  have e1: "env st1 0 = Some (create_placeholder ''score'' float32)"
    using st1 by (auto simp: ex_defs)
  have c: "cnt st = 5" using st by (auto simp: ex_defs)
  have h: "(\<forall>n \<in> set ?pre. op n \<noteq> op_output) \<and> op ?node = op_placeholder
      \<and> length ?ph \<le> cnt st"
    using c by (simp add: ex_defs)
  have g: "op ?c = op_call_function \<and> (\<forall>n \<in> set []. op n \<noteq> op_call_function)"
    by (simp add: mk_node_def)
  from lifted_placeholder_resolution
        [of example_lowerings ?ph FWD example_args ?pre st ?node ?rest] st h
  have "\<forall>pre1 c pre2 st1.
         ?pre = pre1 @ c # pre2 \<and> op c = op_call_function
         \<and> (\<forall>n \<in> set pre2. op n \<noteq> op_call_function)
         \<and> traverse example_lowerings ?ph FWD ?st0 pre1 = Inr st1
         \<longrightarrow>
         build_subgraph_buffer example_lowerings example_args ?ph (?pre @ ?node # ?rest) FWD =
          (case py_getitem (map (tree_map_env (env st1)) (node_args c))
                  (index_to_other_buffers (int (cnt st)) FWD) of
             Inl e \<Rightarrow> Inl e
           | Inr v \<Rightarrow> build_loop example_lowerings ?ph FWD
                        (st\<lparr>env := (env st)(nid ?node \<mapsto> v), cnt := cnt st + 1\<rparr>) ?rest)"
    by blast
  then have "build_subgraph_buffer example_lowerings example_args ?ph (?pre @ ?node # ?rest) FWD =
          (case py_getitem (map (tree_map_env (env st1)) (node_args ?c))
                  (index_to_other_buffers (int (cnt st)) FWD) of
             Inl e \<Rightarrow> Inl e
           | Inr v \<Rightarrow> build_loop example_lowerings ?ph FWD
                        (st\<lparr>env := (env st)(nid ?node \<mapsto> v), cnt := cnt st + 1\<rparr>) ?rest)"
    using st1 g by blast
  moreover have "py_getitem (map (tree_map_env (env st1)) (node_args ?c))
                  (index_to_other_buffers (int (cnt st)) FWD) = Inl IndexError"
    using e1 c by (simp add: mk_node_def py_getitem_def)
  ultimately show ?thesis
    by (simp add: py_getitem_def example_args_def)
qed


lemma build_loop_no_output:
  assumes "\<forall>n \<in> set nodes. op n \<noteq> op_output"
  shows "build_loop L ph gt st nodes =
     (case traverse L ph gt st nodes of Inl e \<Rightarrow> Inl e | Inr st' \<Rightarrow> Inl ValueError)"
  using build_loop_append[OF assms, of L ph gt st "[]"] by (simp split: sum.splits)

lemma make_subgraph_buffer_rejects:
  assumes "\<forall>d. v \<noteq> TensorBox (StorageBox d)"
  shows "make_subgraph_buffer v = Inl AssertionError_TensorBox
       \<or> make_subgraph_buffer v = Inl AssertionError_StorageBox"
  using assms by (cases v rule: make_subgraph_buffer.cases) simp_all



subsection \<open>The forward kernel: online softmax\<close>

lemma fl_sum_Fin: "fl_sum (map Fin xs) = Fin (sum_list xs)"
  by (induction xs) simp_all

lemma fl_sum_map_Fin: "fl_sum (map (\<lambda>j. Fin (g j)) js) = Fin (\<Sum>j\<leftarrow>js. g j)"
  by (induction js) simp_all

lemma fl_dot_Fin:
  "fl_dot (map (\<lambda>j. Fin (a j)) js) (map (\<lambda>j. Fin (b j)) js) = Fin (\<Sum>j\<leftarrow>js. a j * b j)"
  by (induction js) (simp_all add: fl_dot_def)

lemma fl_max_Fin: "xs \<noteq> [] \<Longrightarrow> \<exists>r. fl_max (map Fin xs) = Fin r"
proof (induction xs)
  case Nil then show ?case by simp
next
  case (Cons x xs)
  show ?case
  proof (cases xs)
    case Nil then show ?thesis by simp
  next
    case (Cons y ys)
    with Cons.IH obtain r where "fl_max (map Fin xs) = Fin r" by auto
    then show ?thesis using Cons by simp
  qed
qed

lemma sum_list_upt: "(\<Sum>j\<leftarrow>[0..<n]. g j) = (\<Sum>j<n. g j)"
  by (simp add: interv_sum_list_conv_sum_set_nat atLeast0LessThan)

lemma sum_split_tile:
  "(\<Sum>n<k + b. g n) = (\<Sum>n<k. g n) + (\<Sum>j<b. (g (k + j) :: real))" for k b :: nat
  by (induction b) (simp_all add: add.assoc)

lemma map2_upt_map: "map2 f xs (map g xs) = map (\<lambda>x. f x (g x)) xs"
  by (induction xs) simp_all

lemma map2_map_upt: "map2 f (map g xs) xs = map (\<lambda>x. f (g x) x) xs"
  by (induction xs) simp_all

lemma online_softmax_step_inv:
  fixes pm :: "nat \<Rightarrow> real" and v :: "nat \<Rightarrow> nat \<Rightarrow> real"
  assumes bn: "0 < BLOCK_N meta"
    and post: "post = map (\<lambda>j. Fin (pm (k + j))) [0..<BLOCK_N meta]"
    and V: "\<And>n d. V off_hz n d = Fin (v n d)"
    and m: "if k = 0 then m_i st = NInf else m_i st = Fin mx"
    and l: "l_i st = Fin (\<Sum>n<k. 2 powr (pm n - mx))"
    and a: "acc st = map (\<lambda>d. Fin (\<Sum>n<k. 2 powr (pm n - mx) * v n d)) [0..<BLOCK_DMODEL meta]"
  shows "\<exists>mx'. m_i (online_softmax_step meta V off_hz k post st) = Fin mx'
     \<and> l_i (online_softmax_step meta V off_hz k post st)
         = Fin (\<Sum>n<k + BLOCK_N meta. 2 powr (pm n - mx'))
     \<and> acc (online_softmax_step meta V off_hz k post st)
         = map (\<lambda>d. Fin (\<Sum>n<k + BLOCK_N meta. 2 powr (pm n - mx') * v n d))
             [0..<BLOCK_DMODEL meta]"
proof -
  let ?BN = "BLOCK_N meta" and ?D = "BLOCK_DMODEL meta"
  have "post = map Fin (map (\<lambda>j. pm (k + j)) [0..<?BN])" by (simp add: post)
  moreover have "map (\<lambda>j. pm (k + j)) [0..<?BN] \<noteq> []" using bn by simp
  ultimately obtain r where r: "fl_max post = Fin r" using fl_max_Fin by metis
  define mx' where "mx' = (if k = 0 then r else max mx r)"
  define al where "al = (if k = 0 then 0 else 2 powr (mx - mx'))"
  have mij: "fmax (m_i st) (fl_max post) = Fin mx'"
    using m r by (auto simp: mx'_def split: if_splits)
  have alpha: "fexp2 (fsub (m_i st) (Fin mx')) = Fin al"
    using m by (auto simp: al_def fsub_def split: if_splits)
  have p: "map (\<lambda>s. fexp2 (fsub s (Fin mx'))) post
      = map (\<lambda>j. Fin (2 powr (pm (k + j) - mx'))) [0..<?BN]"
    by (simp add: post fsub_def)
  have lsum: "al * (\<Sum>n<k. 2 powr (pm n - mx)) = (\<Sum>n<k. 2 powr (pm n - mx'))"
  proof (cases "k = 0")
    case True then show ?thesis by (simp add: al_def)
  next
    case False
    have "2 powr (mx - mx') * (\<Sum>n<k. 2 powr (pm n - mx))
        = (\<Sum>n<k. 2 powr (mx - mx') * 2 powr (pm n - mx))"
      by (simp add: sum_distrib_left)
    also have "\<dots> = (\<Sum>n<k. 2 powr (pm n - mx'))"
      by (intro sum.cong refl) (simp add: powr_add[symmetric])
    finally show ?thesis using False by (simp add: al_def)
  qed
  have asum: "al * (\<Sum>n<k. 2 powr (pm n - mx) * v n d) = (\<Sum>n<k. 2 powr (pm n - mx') * v n d)" for d
  proof (cases "k = 0")
    case True then show ?thesis by (simp add: al_def)
  next
    case False
    have "2 powr (mx - mx') * (\<Sum>n<k. 2 powr (pm n - mx) * v n d)
        = (\<Sum>n<k. (2 powr (mx - mx') * 2 powr (pm n - mx)) * v n d)"
      by (simp add: sum_distrib_left mult.assoc)
    also have "\<dots> = (\<Sum>n<k. 2 powr (pm n - mx') * v n d)"
      by (intro sum.cong refl) (simp add: powr_add[symmetric])
    finally show ?thesis using False by (simp add: al_def)
  qed
  have step: "online_softmax_step meta V off_hz k post st =
    \<lparr>m_i = Fin mx',
     l_i = fadd (fmul (l_i st) (Fin al))
             (fl_sum (map (\<lambda>j. Fin (2 powr (pm (k + j) - mx'))) [0..<?BN])),
     acc = map2 (\<lambda>a d. fadd a
                  (fl_dot (map (\<lambda>j. Fin (2 powr (pm (k + j) - mx'))) [0..<?BN])
                     (map (\<lambda>j. V off_hz (k + j) d) [0..<?BN])))
             (map (\<lambda>a. fmul a (Fin al)) (acc st)) [0..<?D]\<rparr>"
    unfolding online_softmax_step_def Let_def mij alpha p by (simp add: o_def)
  have l': "fadd (fmul (l_i st) (Fin al))
             (fl_sum (map (\<lambda>j. Fin (2 powr (pm (k + j) - mx'))) [0..<?BN]))
        = Fin (\<Sum>n<k + ?BN. 2 powr (pm n - mx'))"
    using lsum
    by (simp add: l fl_sum_map_Fin sum_list_upt sum_split_tile[of _ k ?BN] mult.commute)
  have a': "map2 (\<lambda>a d. fadd a
                  (fl_dot (map (\<lambda>j. Fin (2 powr (pm (k + j) - mx'))) [0..<?BN])
                     (map (\<lambda>j. V off_hz (k + j) d) [0..<?BN])))
             (map (\<lambda>a. fmul a (Fin al)) (acc st)) [0..<?D]
        = map (\<lambda>d. Fin (\<Sum>n<k + ?BN. 2 powr (pm n - mx') * v n d)) [0..<?D]"
    using asum
    by (simp add: a V map2_map_upt fl_dot_Fin sum_list_upt sum_split_tile[of _ k ?BN]
        mult.commute)
  show ?thesis
    unfolding step using l' a' by auto
qed

lemma qk_row_Fin:
  assumes Q: "\<And>z m d. Q z m d = Fin (q z m d)" and K: "\<And>z n d. K z n d = Fin (k z n d)"
  shows "qk_row meta Q K off_hz start_m kptr i =
     map (\<lambda>j. Fin (qk_scale meta
            * raw_score q k (BLOCK_DMODEL meta) off_hz (start_m * BLOCK_M meta + i) (kptr + j)))
       [0..<BLOCK_N meta]"
proof -
  have "(\<Sum>d<D. q off_hz m d * c * k off_hz n d) = c * raw_score q k D off_hz m n" for D m n c
    by (simp add: raw_score_def sum_distrib_left mult_ac)
  then show ?thesis
    by (simp add: qk_row_def q_row_def Q K fl_dot_Fin sum_list_upt)
qed

lemma post_mod_scores_Fin:
  assumes Q: "\<And>z m d. Q z m d = Fin (q z m d)" and K: "\<And>z n d. K z n d = Fin (k z n d)"
    and F: "\<And>x b h m n. modification (Fin x) b h m n = Fin (f x b h m n)"
  shows "post_mod_scores meta modification H off_hz (start_m * BLOCK_M meta + i) kptr
           (qk_row meta Q K off_hz start_m kptr i) =
     map (\<lambda>j. Fin (kernel_exponent meta f H q k off_hz (start_m * BLOCK_M meta + i) (kptr + j)))
       [0..<BLOCK_N meta]"
  by (simp add: post_mod_scores_def qk_row_Fin[OF Q K] map2_map_upt F change_of_base_def
      kernel_exponent_def qk_scale_def)

lemma row_after_inv:
  fixes q k v :: real_tensor
  assumes Q: "\<And>z m d. Q z m d = Fin (q z m d)" and K: "\<And>z n d. K z n d = Fin (k z n d)"
    and V: "\<And>z n d. V z n d = Fin (v z n d)"
    and F: "\<And>x b h m n. modification (Fin x) b h m n = Fin (f x b h m n)"
    and bn: "0 < BLOCK_N meta"
    and pm: "pm = kernel_exponent meta f H q k off_hz (start_m * BLOCK_M meta + i)"
  shows "\<exists>mx. (if T = 0 then m_i (row_after meta modification H Q K V start_m off_hz i T) = NInf
               else m_i (row_after meta modification H Q K V start_m off_hz i T) = Fin mx)
     \<and> l_i (row_after meta modification H Q K V start_m off_hz i T)
         = Fin (\<Sum>n<T * BLOCK_N meta. 2 powr (pm n - mx))
     \<and> acc (row_after meta modification H Q K V start_m off_hz i T)
         = map (\<lambda>d. Fin (\<Sum>n<T * BLOCK_N meta. 2 powr (pm n - mx) * v off_hz n d))
             [0..<BLOCK_DMODEL meta]"
proof (induction T)
  case 0
  have "replicate D (Fin 0) = map (\<lambda>d. Fin 0) [0..<D]" for D
    by (simp add: map_replicate_const)
  then show ?case by (simp add: row_after_def initial_row_def fsub_def)
next
  case (Suc T)
  let ?st = "row_after meta modification H Q K V start_m off_hz i T"
  from Suc obtain mx where
    m: "if T * BLOCK_N meta = 0 then m_i ?st = NInf else m_i ?st = Fin mx"
    and l: "l_i ?st = Fin (\<Sum>n<T * BLOCK_N meta. 2 powr (pm n - mx))"
    and a: "acc ?st = map (\<lambda>d. Fin (\<Sum>n<T * BLOCK_N meta. 2 powr (pm n - mx) * v off_hz n d))
             [0..<BLOCK_DMODEL meta]"
    using bn by auto
  have next_row: "row_after meta modification H Q K V start_m off_hz i (Suc T) =
      online_softmax_step meta V off_hz (T * BLOCK_N meta)
        (map (\<lambda>j. Fin (pm (T * BLOCK_N meta + j))) [0..<BLOCK_N meta]) ?st"
    by (simp add: row_after_def row_update_def pm
        post_mod_scores_Fin[where Q=Q and q=q and K=K and k=k and modification=modification
          and f=f, OF Q K F])
  from online_softmax_step_inv[OF bn refl, of V off_hz "v off_hz" "T * BLOCK_N meta" ?st mx pm,
      OF V m l a]
  show ?case
    unfolding next_row by (auto simp: add.commute)
qed

lemma py_range_tiles:
  assumes "0 < b"
  shows "py_range 0 (T * b) b = map (\<lambda>t. t * b) [0..<T]"
proof -
  have "(T * b + b - 1) div b = T"
    using assms by (intro div_nat_eqI) (simp_all add: algebra_simps)
  then show ?thesis using assms by (simp add: py_range_def)
qed

lemma unit_loop:
  "foldl (loop_body meta modification H Q K V start_m off_hz) (initial_unit meta)
     (map (\<lambda>t. t * BLOCK_N meta) [0..<T]) =
   \<lparr>K_block_ptr = T * BLOCK_N meta, V_block_ptr = T * BLOCK_N meta,
    rows = map (\<lambda>i. row_after meta modification H Q K V start_m off_hz i T) [0..<BLOCK_M meta]\<rparr>"
proof (induction T)
  case 0
  show ?case
    by (simp add: initial_unit_def row_after_def map_replicate_const)
next
  case (Suc T)
  let ?F = "loop_body meta modification H Q K V start_m off_hz"
  have "foldl ?F (initial_unit meta) (map (\<lambda>t. t * BLOCK_N meta) [0..<Suc T])
      = ?F (foldl ?F (initial_unit meta) (map (\<lambda>t. t * BLOCK_N meta) [0..<T]))
          (T * BLOCK_N meta)"
    by simp
  also have "\<dots> = ?F \<lparr>K_block_ptr = T * BLOCK_N meta, V_block_ptr = T * BLOCK_N meta,
      rows = map (\<lambda>i. row_after meta modification H Q K V start_m off_hz i T)
               [0..<BLOCK_M meta]\<rparr> (T * BLOCK_N meta)"
    by (simp only: Suc)
  also have "\<dots> = \<lparr>K_block_ptr = Suc T * BLOCK_N meta, V_block_ptr = Suc T * BLOCK_N meta,
      rows = map (\<lambda>i. row_after meta modification H Q K V start_m off_hz i (Suc T))
               [0..<BLOCK_M meta]\<rparr>"
    by (simp add: loop_body_def map2_upt_map row_after_def)
  finally show ?case .
qed

lemma flex_attention_unit_rows:
  assumes "0 < BLOCK_N meta"
  shows "flex_attention_unit meta modification H (T * BLOCK_N meta) Q K V start_m off_hz =
     map (\<lambda>i. (start_m * BLOCK_M meta + i,
                map (\<lambda>a. fdiv a (l_i (row_after meta modification H Q K V start_m off_hz i T)))
                  (acc (row_after meta modification H Q K V start_m off_hz i T)),
                fadd (m_i (row_after meta modification H Q K V start_m off_hz i T))
                  (flog2 (l_i (row_after meta modification H Q K V start_m off_hz i T)))))
       [0..<BLOCK_M meta]"
  by (simp add: flex_attention_unit_def py_range_tiles[OF assms] unit_loop map2_upt_map)

lemma row_after_result:
  fixes q k v :: real_tensor
  assumes Q: "\<And>z m d. Q z m d = Fin (q z m d)" and K: "\<And>z n d. K z n d = Fin (k z n d)"
    and V: "\<And>z n d. V z n d = Fin (v z n d)"
    and F: "\<And>x b h m n. modification (Fin x) b h m n = Fin (f x b h m n)"
    and bn: "0 < BLOCK_N meta" and T: "0 < T"
    and pm: "pm = kernel_exponent meta f H q k off_hz (start_m * BLOCK_M meta + i)"
    and st: "st = row_after meta modification H Q K V start_m off_hz i T"
  shows "map (\<lambda>a. fdiv a (l_i st)) (acc st)
           = map Fin (softmax2_row pm v off_hz (T * BLOCK_N meta) (BLOCK_DMODEL meta))
       \<and> fadd (m_i st) (flog2 (l_i st)) = Fin (logsumexp2 pm (T * BLOCK_N meta))"
proof -
  let ?N = "T * BLOCK_N meta"
  from row_after_inv[where Q=Q and q=q and K=K and k=k and V=V and v=v
      and modification=modification and f=f and T=T, OF Q K V F bn pm] T obtain mx where
    m: "m_i st = Fin mx"
    and l: "l_i st = Fin (\<Sum>n<?N. 2 powr (pm n - mx))"
    and a: "acc st = map (\<lambda>d. Fin (\<Sum>n<?N. 2 powr (pm n - mx) * v off_hz n d))
             [0..<BLOCK_DMODEL meta]"
    unfolding st by auto
  have N: "0 < ?N" using bn T by simp
  have ne: "{..<?N} \<noteq> {}" using N by (auto simp: lessThan_empty_iff)
  have S: "0 < (\<Sum>n<?N. 2 powr pm n)"
    using ne by (intro sum_pos) auto
  have c: "0 < (2::real) powr mx" by simp
  have L: "(\<Sum>n<?N. 2 powr (pm n - mx)) = (\<Sum>n<?N. 2 powr pm n) / 2 powr mx"
    by (simp add: powr_diff sum_divide_distrib)
  have A: "(\<Sum>n<?N. 2 powr (pm n - mx) * v off_hz n d)
      = (\<Sum>n<?N. 2 powr pm n * v off_hz n d) / 2 powr mx" for d
    by (simp add: powr_diff sum_divide_distrib)
  have Lpos: "(\<Sum>n<?N. 2 powr pm n) / 2 powr mx \<noteq> 0"
    using S c by simp
  have out: "map (\<lambda>a. fdiv a (l_i st)) (acc st)
           = map Fin (softmax2_row pm v off_hz ?N (BLOCK_DMODEL meta))"
    using Lpos S by (simp add: a l L A softmax2_row_def o_def)
  have "log 2 ((\<Sum>n<?N. 2 powr pm n) / 2 powr mx) = log 2 (\<Sum>n<?N. 2 powr pm n) - mx"
    using S by (simp add: log_divide)
  then have lse: "fadd (m_i st) (flog2 (l_i st)) = Fin (logsumexp2 pm ?N)"
    using Lpos S c by (simp add: m l L logsumexp2_def divide_less_0_iff not_less)
  show ?thesis using out lse by simp
qed

lemma map_of_unique:
  assumes "(key, x) \<in> set xs" and "\<And>y. (key, y) \<in> set xs \<Longrightarrow> y = x"
  shows "map_of xs key = Some x"
proof -
  from assms(1) obtain y where y: "map_of xs key = Some y"
    using weak_map_of_SomeI by fastforce
  then have "(key, y) \<in> set xs" by (rule map_of_SomeD)
  with assms(2) y show ?thesis by simp
qed

lemma set_grid_units:
  assumes "0 < BLOCK_M meta"
  shows "set (grid_units meta Z H Q_LEN) =
     {(start_m, off_hz). start_m < (Q_LEN + BLOCK_M meta - 1) div BLOCK_M meta \<and> off_hz < Z * H}"
  using assms by (auto simp: grid_units_def flex_attention_grid_def cdiv_def)

lemma row_in_grid:
  assumes "0 < (b::nat)" and "m < Q_LEN"
  shows "m div b < (Q_LEN + b - 1) div b"
proof -
  have le: "m div b * b \<le> m" by simp
  have "m div b * b + b \<le> Q_LEN + b - 1" using le assms by linarith
  then have "(m div b + 1) * b \<le> Q_LEN + b - 1" by (simp add: algebra_simps)
  then have "m div b + 1 \<le> (Q_LEN + b - 1) div b"
    using assms(1) by (simp add: less_eq_div_iff_mult_less_eq)
  then show ?thesis by simp
qed

lemma flex_attention_output_row:
  assumes bm: "0 < BLOCK_M meta"
    and bn: "0 < BLOCK_N meta" and dv: "BLOCK_N meta dvd KV_LEN"
    and z: "z < Z" and h: "h < H" and m: "m < Q_LEN"
    and st: "st = row_after meta modification H Q K V (m div BLOCK_M meta) (z * H + h)
                   (m mod BLOCK_M meta) (KV_LEN div BLOCK_N meta)"
  shows "flex_attention_output meta modification Z H Q_LEN KV_LEN Q K V (z, h, m) =
     Some (map (\<lambda>a. fdiv a (l_i st)) (acc st))"
proof -
  let ?BM = "BLOCK_M meta" and ?T = "KV_LEN div BLOCK_N meta"
  let ?row = "\<lambda>start_m off_hz i. row_after meta modification H Q K V start_m off_hz i ?T"
  let ?R = "\<lambda>start_m off_hz i. map (\<lambda>a. fdiv a (l_i (?row start_m off_hz i)))
                                   (acc (?row start_m off_hz i))"
  let ?stores = "concat (map (\<lambda>(start_m, off_hz).
        output_stores H Q_LEN off_hz
          (flex_attention_unit meta modification H KV_LEN Q K V start_m off_hz))
        (grid_units meta Z H Q_LEN))"
  have T: "KV_LEN = ?T * BLOCK_N meta" using dv by simp
  have unit: "flex_attention_unit meta modification H KV_LEN Q K V start_m off_hz =
     map (\<lambda>i. (start_m * ?BM + i, ?R start_m off_hz i,
                fadd (m_i (?row start_m off_hz i)) (flog2 (l_i (?row start_m off_hz i)))))
       [0..<?BM]" for start_m off_hz
    using flex_attention_unit_rows[OF bn, of modification H ?T Q K V start_m off_hz] T by simp
  have mem: "(key, x) \<in> set ?stores \<longleftrightarrow>
      (\<exists>start_m off_hz i. start_m < (Q_LEN + ?BM - 1) div ?BM \<and> off_hz < Z * H \<and> i < ?BM
         \<and> start_m * ?BM + i < Q_LEN
         \<and> key = (off_hz div H, off_hz mod H, start_m * ?BM + i)
         \<and> x = ?R start_m off_hz i)" for key x
    by (auto simp: set_grid_units[OF bm] output_stores_def unit image_iff Bex_def)
  have hz: "(z * H + h) div H = z" "(z * H + h) mod H = h" using h by simp_all
  have lt: "z * H + h < Z * H"
  proof -
    have "z * H + h < (z + 1) * H" using h by simp
    also have "\<dots> \<le> Z * H" using z by (intro mult_le_mono1) simp
    finally show ?thesis .
  qed
  have "((z, h, m), ?R (m div ?BM) (z * H + h) (m mod ?BM)) \<in> set ?stores"
    unfolding mem
    by (rule exI[of _ "m div ?BM"], rule exI[of _ "z * H + h"], rule exI[of _ "m mod ?BM"])
       (use bm m lt hz row_in_grid[OF bm m] in simp)
  moreover have "y = ?R (m div ?BM) (z * H + h) (m mod ?BM)"
    if "((z, h, m), y) \<in> set ?stores" for y
  proof -
    from that obtain start_m off_hz i where
      k: "off_hz div H = z" "off_hz mod H = h" "start_m * ?BM + i = m" and i: "i < ?BM"
      and y: "y = ?R start_m off_hz i"
      unfolding mem by auto
    from k(1,2) have "off_hz = z * H + h" by (metis div_mult_mod_eq)
    moreover from k(3) i have "start_m = m div ?BM" "i = m mod ?BM" by auto
    ultimately show ?thesis using y by simp
  qed
  ultimately have "map_of ?stores (z, h, m) = Some (?R (m div ?BM) (z * H + h) (m mod ?BM))"
    by (rule map_of_unique)
  then show ?thesis by (simp add: flex_attention_output_def st)
qed

lemma flex_attention_lse_row:
  assumes bm: "0 < BLOCK_M meta" and dm: "BLOCK_M meta dvd Q_LEN"
    and bn: "0 < BLOCK_N meta" and dv: "BLOCK_N meta dvd KV_LEN"
    and lse: "OUTPUT_LOGSUMEXP meta"
    and oz: "off_hz < Z * H" and m: "m < Q_LEN"
    and st: "st = row_after meta modification H Q K V (m div BLOCK_M meta) off_hz
                   (m mod BLOCK_M meta) (KV_LEN div BLOCK_N meta)"
  shows "flex_attention_lse meta modification Z H Q_LEN KV_LEN Q K V (off_hz * Q_LEN + m) =
     Some (fadd (m_i st) (flog2 (l_i st)))"
proof -
  let ?BM = "BLOCK_M meta" and ?T = "KV_LEN div BLOCK_N meta"
  let ?row = "\<lambda>start_m off_hz i. row_after meta modification H Q K V start_m off_hz i ?T"
  let ?L = "\<lambda>start_m off_hz i.
      fadd (m_i (?row start_m off_hz i)) (flog2 (l_i (?row start_m off_hz i)))"
  let ?stores = "concat (map (\<lambda>(start_m, off_hz).
        lse_stores meta Q_LEN off_hz
          (flex_attention_unit meta modification H KV_LEN Q K V start_m off_hz))
        (grid_units meta Z H Q_LEN))"
  have T: "KV_LEN = ?T * BLOCK_N meta" using dv by simp
  have unit: "flex_attention_unit meta modification H KV_LEN Q K V start_m oz =
     map (\<lambda>i. (start_m * ?BM + i,
                map (\<lambda>a. fdiv a (l_i (?row start_m oz i))) (acc (?row start_m oz i)),
                ?L start_m oz i))
       [0..<?BM]" for start_m oz
    using flex_attention_unit_rows[OF bn, of modification H ?T Q K V start_m oz] T by simp
  from dm obtain G where G: "Q_LEN = G * ?BM" by (auto simp: dvd_def mult.commute)
  have g0: "(Q_LEN + ?BM - Suc 0) div ?BM = G"
    unfolding G using bm by (intro div_nat_eqI) (simp_all add: algebra_simps)
  have inb: "start_m * ?BM + i < Q_LEN" if "start_m < G" "i < ?BM" for start_m i
  proof -
    have "start_m * ?BM + i < (start_m + 1) * ?BM" using that by simp
    also have "\<dots> \<le> G * ?BM" using that by (intro mult_le_mono1) simp
    finally show ?thesis by (simp add: G)
  qed
  have mem: "(key, x) \<in> set ?stores \<longleftrightarrow>
      (\<exists>start_m oz i. start_m < G \<and> oz < Z * H \<and> i < ?BM
         \<and> key = oz * Q_LEN + (start_m * ?BM + i)
         \<and> x = ?L start_m oz i)" for key x
    by (auto simp: set_grid_units[OF bm] lse_stores_def unit lse g0 image_iff Bex_def)
  have "(off_hz * Q_LEN + m, ?L (m div ?BM) off_hz (m mod ?BM)) \<in> set ?stores"
    unfolding mem
    by (rule exI[of _ "m div ?BM"], rule exI[of _ off_hz], rule exI[of _ "m mod ?BM"])
       (use bm m oz row_in_grid[OF bm m] g0 in simp)
  moreover have "y = ?L (m div ?BM) off_hz (m mod ?BM)"
    if "(off_hz * Q_LEN + m, y) \<in> set ?stores" for y
  proof -
    from that obtain start_m oz i where s: "start_m < G" "i < ?BM"
      and key: "off_hz * Q_LEN + m = oz * Q_LEN + (start_m * ?BM + i)"
      and y: "y = ?L start_m oz i"
      unfolding mem by auto
    let ?m' = "start_m * ?BM + i"
    have m': "?m' < Q_LEN" using inb[OF s] .
    have "(off_hz * Q_LEN + m) div Q_LEN = off_hz" "(off_hz * Q_LEN + m) mod Q_LEN = m"
      using m by simp_all
    moreover have "(oz * Q_LEN + ?m') div Q_LEN = oz" "(oz * Q_LEN + ?m') mod Q_LEN = ?m'"
      using m' by simp_all
    ultimately have "oz = off_hz" "?m' = m" using key by metis+
    moreover from this s have "start_m = m div ?BM" "i = m mod ?BM" by auto
    ultimately show ?thesis using y by simp
  qed
  ultimately have "map_of ?stores (off_hz * Q_LEN + m) = Some (?L (m div ?BM) off_hz (m mod ?BM))"
    by (rule map_of_unique)
  then show ?thesis by (simp add: flex_attention_lse_def st)
qed

lemma LOG2E_pos: "0 < LOG2E" by (simp add: LOG2E_def)

lemma fl_max_replicate_NInf: "fl_max (replicate n NInf) = NInf"
proof (induction n)
  case 0 show ?case by simp
next
  case (Suc n) then show ?case by (cases n) simp_all
qed

lemma fl_sum_replicate_0: "fl_sum (replicate n (Fin 0)) = Fin 0"
  by (induction n) simp_all

lemma fl_dot_zero_finite:
  assumes "\<And>j. \<exists>x. g j = Fin x"
  shows "fl_dot (replicate (length js) (Fin 0)) (map g js) = Fin 0"
proof (induction js)
  case Nil show ?case by (simp add: fl_dot_def)
next
  case (Cons j js)
  obtain x where "g j = Fin x" using assms by blast
  then show ?case using Cons by (simp add: fl_dot_def)
qed

lemma map2_ignore_snd:
  "length xs = length ys \<Longrightarrow> map2 (\<lambda>a d. g a) xs ys = map g xs"
  by (induction xs ys rule: list_induct2) simp_all

lemma post_mod_scores_masked:
  assumes "\<And>s n. modification s (off_hz div H) (off_hz mod H) m n = NInf"
  shows "post_mod_scores meta modification H off_hz m start_n
           (qk_row meta Q K off_hz start_m kptr i) = replicate (BLOCK_N meta) NInf"
proof -
  have "change_of_base meta NInf = NInf"
    using LOG2E_pos by (simp add: change_of_base_def signed_inf_def)
  moreover have "length (qk_row meta Q K off_hz start_m kptr i) = BLOCK_N meta"
    by (simp add: qk_row_def)
  ultimately show ?thesis
    by (simp add: post_mod_scores_def assms map_replicate_const o_def)
qed

lemma masked_step_unsafe:
  assumes safe: "\<not> ROWS_GUARANTEED_SAFE meta"
    and V: "\<And>n d. \<exists>x. V off_hz n d = Fin x"
  shows "online_softmax_step meta V off_hz vptr (replicate (BLOCK_N meta) NInf) (initial_row meta)
       = initial_row meta"
proof -
  have d: "fl_dot (replicate (BLOCK_N meta) (Fin 0))
             (map (\<lambda>j. V off_hz (vptr + j) d) [0..<BLOCK_N meta]) = Fin 0" for d
    using fl_dot_zero_finite[of "\<lambda>j. V off_hz (vptr + j) d" "[0..<BLOCK_N meta]"] V by simp
  have z: "map2 (\<lambda>a d. fadd a (Fin 0)) (replicate D (Fin 0)) [0..<D] = replicate D (Fin 0)" for D
    by (simp add: map2_ignore_snd)
  show ?thesis
    using safe
    by (simp add: online_softmax_step_def initial_row_def fsub_def fl_max_replicate_NInf
        fl_sum_replicate_0 d z map_replicate_const o_def Let_def)
qed

lemma row_after_masked_unsafe:
  assumes safe: "\<not> ROWS_GUARANTEED_SAFE meta"
    and mask: "\<And>s n. modification s (off_hz div H) (off_hz mod H)
                      (start_m * BLOCK_M meta + i) n = NInf"
    and V: "\<And>n d. \<exists>x. V off_hz n d = Fin x"
  shows "row_after meta modification H Q K V start_m off_hz i T = initial_row meta"
proof (induction T)
  case 0 show ?case by (simp add: row_after_def)
next
  case (Suc T)
  have "row_after meta modification H Q K V start_m off_hz i (Suc T) =
      row_update meta modification H V off_hz (start_m * BLOCK_M meta + i)
        (T * BLOCK_N meta) (T * BLOCK_N meta)
        (qk_row meta Q K off_hz start_m (T * BLOCK_N meta) i)
        (row_after meta modification H Q K V start_m off_hz i T)"
    by (simp add: row_after_def)
  also have "\<dots> = initial_row meta"
    unfolding Suc row_update_def post_mod_scores_masked[of modification off_hz H, OF mask]
    by (rule masked_step_unsafe[where V=V and off_hz=off_hz, OF safe V])
  finally show ?case .
qed

lemma masked_step_safe:
  assumes safe: "ROWS_GUARANTEED_SAFE meta" and bn: "0 < BLOCK_N meta"
    and st: "m_i st = NInf" "length (acc st) = BLOCK_DMODEL meta"
  shows "online_softmax_step meta V off_hz vptr (replicate (BLOCK_N meta) NInf) st
       = \<lparr>m_i = NInf, l_i = NaN, acc = replicate (BLOCK_DMODEL meta) NaN\<rparr>"
proof -
  have a: "fmul x NaN = NaN" for x by (cases x) simp_all
  have b: "fadd NaN x = NaN" for x by (cases x) simp_all
  have c: "fadd x NaN = NaN" for x by (cases x) simp_all
  have z0: "map2 (\<lambda>x y. fadd x (g y)) (replicate (length ys) NaN) ys
      = replicate (length ys) NaN" for g :: "nat \<Rightarrow> fl" and ys
    by (induction ys) (simp_all add: b)
  have z: "map2 (\<lambda>x y. fadd x (g y)) (replicate D NaN) [0..<D] = replicate D NaN"
    for g :: "nat \<Rightarrow> fl" and D
    using z0[of g "[0..<D]"] by simp
  obtain n where n: "BLOCK_N meta = Suc n" using bn by (cases "BLOCK_N meta") simp_all
  have s: "fl_sum (replicate (BLOCK_N meta) NaN) = NaN" by (simp add: n b)
  show ?thesis
    using safe st
    by (simp add: online_softmax_step_def fsub_def fl_max_replicate_NInf a b c s z
        map_replicate_const o_def Let_def)
qed

lemma row_after_masked_safe:
  assumes safe: "ROWS_GUARANTEED_SAFE meta" and bn: "0 < BLOCK_N meta"
    and mask: "\<And>s n. modification s (off_hz div H) (off_hz mod H)
                      (start_m * BLOCK_M meta + i) n = NInf"
  shows "row_after meta modification H Q K V start_m off_hz i (Suc T)
       = \<lparr>m_i = NInf, l_i = NaN, acc = replicate (BLOCK_DMODEL meta) NaN\<rparr>"
proof -
  let ?row = "row_after meta modification H Q K V start_m off_hz i"
  have step: "?row (Suc T) =
      online_softmax_step meta V off_hz (T * BLOCK_N meta) (replicate (BLOCK_N meta) NInf) (?row T)"
    for T
    by (simp add: row_after_def row_update_def
        post_mod_scores_masked[of modification off_hz H, OF mask])
  have inv: "m_i (?row T) = NInf \<and> length (acc (?row T)) = BLOCK_DMODEL meta" for T
  proof (induction T)
    case 0 show ?case by (simp add: row_after_def initial_row_def fsub_def)
  next
    case (Suc T)
    then show ?case
      unfolding step using masked_step_safe[OF safe bn, of "?row T" V off_hz "T * BLOCK_N meta"]
      by simp
  qed
  show ?thesis
    unfolding step using masked_step_safe[OF safe bn, of "?row T" V off_hz "T * BLOCK_N meta"] inv
    by simp
qed

lemma flex_attention_output_finite:
  fixes q k v :: real_tensor
  assumes F: "\<And>x b h m n. modification (Fin x) b h m n = Fin (f x b h m n)"
    and bm: "0 < BLOCK_M meta"
    and bn: "0 < BLOCK_N meta" and dv: "BLOCK_N meta dvd KV_LEN" and kv: "0 < KV_LEN"
    and z: "z < Z" and h: "h < H" and m: "m < Q_LEN"
  shows "flex_attention_output meta modification Z H Q_LEN KV_LEN
           (as_floats q) (as_floats k) (as_floats v) (z, h, m) =
     Some (map Fin (softmax2_row (kernel_exponent meta f H q k (z * H + h) m)
                      v (z * H + h) KV_LEN (BLOCK_DMODEL meta)))"
proof -
  let ?T = "KV_LEN div BLOCK_N meta"
  have T: "?T * BLOCK_N meta = KV_LEN" "0 < ?T"
  proof -
    show "?T * BLOCK_N meta = KV_LEN" using dv by simp
    then show "0 < ?T" using kv by (cases ?T) simp_all
  qed
  have mm: "m div BLOCK_M meta * BLOCK_M meta + m mod BLOCK_M meta = m" by simp
  from row_after_result[where Q="as_floats q" and q=q and K="as_floats k" and k=k
      and V="as_floats v" and v=v and modification=modification and f=f and T="?T"
      and meta=meta and H=H and off_hz="z * H + h" and start_m="m div BLOCK_M meta"
      and i="m mod BLOCK_M meta", OF _ _ _ F bn T(2) refl refl]
  show ?thesis
    unfolding flex_attention_output_row[OF bm bn dv z h m refl]
    by (simp add: as_floats_def T(1) mm)
qed

lemma flex_attention_lse_finite:
  fixes q k v :: real_tensor
  assumes F: "\<And>x b h m n. modification (Fin x) b h m n = Fin (f x b h m n)"
    and bm: "0 < BLOCK_M meta" and dm: "BLOCK_M meta dvd Q_LEN"
    and bn: "0 < BLOCK_N meta" and dv: "BLOCK_N meta dvd KV_LEN" and kv: "0 < KV_LEN"
    and lse: "OUTPUT_LOGSUMEXP meta"
    and oz: "off_hz < Z * H" and m: "m < Q_LEN"
  shows "flex_attention_lse meta modification Z H Q_LEN KV_LEN
           (as_floats q) (as_floats k) (as_floats v) (off_hz * Q_LEN + m) =
     Some (Fin (logsumexp2 (kernel_exponent meta f H q k off_hz m) KV_LEN))"
proof -
  let ?T = "KV_LEN div BLOCK_N meta"
  have T: "?T * BLOCK_N meta = KV_LEN" "0 < ?T"
  proof -
    show "?T * BLOCK_N meta = KV_LEN" using dv by simp
    then show "0 < ?T" using kv by (cases ?T) simp_all
  qed
  have mm: "m div BLOCK_M meta * BLOCK_M meta + m mod BLOCK_M meta = m" by simp
  from row_after_result[where Q="as_floats q" and q=q and K="as_floats k" and k=k
      and V="as_floats v" and v=v and modification=modification and f=f and T="?T"
      and meta=meta and H=H and off_hz=off_hz and start_m="m div BLOCK_M meta"
      and i="m mod BLOCK_M meta", OF _ _ _ F bn T(2) refl refl]
  show ?thesis
    unfolding flex_attention_lse_row[OF bm dm bn dv lse oz m refl]
    by (simp add: as_floats_def T(1) mm)
qed

lemma sum_first_other:
  "(\<Sum>n<Suc N. if n = 0 then a else b) = a + real N * (b::real)"
  by (induction N) (simp_all add: algebra_simps)

lemma exp_1_gt_2: "(2::real) < exp 1"
proof -
  have "1 + 1 + 1\<^sup>2 / 2 \<le> exp (1::real)" by (rule exp_lower_Taylor_quadratic) simp
  then show ?thesis by simp
qed

text \<open>
  C1 at a failing input. The forward lowering generates the candidate
  \<open>(128, 64, 4, 3)\<close> with \<^verbatim>\<open>SCORE_MOD_IS_LINEAR=True\<close>. With 128 queries and keys,
  head dimension 64, a zero query (all raw scores 0), the modification
  \<^verbatim>\<open>score + (1 if n == 0 else 0)\<close> and values that are 1 at key 0 and 0 elsewhere, the
  kernel writes \<open>2 / 129\<close> into row 0, the reference output is \<open>e / (e + 127)\<close>, and
  the two differ: the bias is added after the change-of-base factor went into the
  query, so it is never rescaled.
\<close>

theorem linear_flag_misapplies_bias:
  "flex_attention_choice 64 (128, 64, 4, 3) \<in> set (flex_attention_choices True float32 64 (8, 0))
   \<and> flex_attention_output (flex_attention_choice 64 (128, 64, 4, 3)) first_key_bias 1 1 128 128
        (as_floats (const_tensor 0)) (as_floats (const_tensor 1)) (as_floats first_key_indicator)
        (0, 0, 0)
      = Some (replicate 64 (Fin (2 / 129)))
   \<and> reference_attention first_key_bias_real (const_tensor 0) (const_tensor 1)
        first_key_indicator 1 128 64 0 0 0
      = replicate 64 (exp 1 / (exp 1 + 127))
   \<and> (2 / 129 :: real) < exp 1 / (exp 1 + 127)"
proof (intro conjI)
  let ?meta = "flex_attention_choice 64 (128, 64, 4, 3)"
  show "?meta \<in> set (flex_attention_choices True float32 64 (8, 0))"
    by (simp add: flex_attention_choices_def flex_attention_configs_def)
  have meta: "BLOCK_M ?meta = 128" "BLOCK_N ?meta = 64" "BLOCK_DMODEL ?meta = 64"
    "SCORE_MOD_IS_LINEAR ?meta"
    by (simp_all add: flex_attention_choice_def)
  have F: "\<And>x b h m n. first_key_bias (Fin x) b h m n = Fin (first_key_bias_real x b h m n)"
    by (simp add: first_key_bias_def first_key_bias_real_def)
  have e: "kernel_exponent ?meta first_key_bias_real H (const_tensor 0) (const_tensor 1) 0 0 n
      = (if n = 0 then 1 else 0)" for n H
    by (simp add: kernel_exponent_def meta raw_score_def const_tensor_def first_key_bias_real_def)
  have s1: "(\<Sum>n::nat<128. (2::real) powr (if n = 0 then 1 else 0)) = 129"
    using sum_first_other[of "2 powr 1" "2 powr 0" 127]
    by (simp add: if_distrib[of "\<lambda>x. 2 powr x"])
  have s2: "(\<Sum>n::nat<128. (2::real) powr (if n = 0 then 1 else 0) * (if n = 0 then 1 else 0)) = 2"
    using sum_first_other[of "2 powr 1 * 1" "2 powr 0 * 0" 127]
    by (simp add: if_distrib[of "\<lambda>x. 2 powr x"] if_distrib[of "\<lambda>x. x * _"] cong: if_cong)
  have "flex_attention_output ?meta first_key_bias 1 1 128 128
        (as_floats (const_tensor 0)) (as_floats (const_tensor 1)) (as_floats first_key_indicator)
        (0, 0, 0)
     = Some (map Fin (softmax2_row
          (kernel_exponent ?meta first_key_bias_real 1 (const_tensor 0) (const_tensor 1) (0 * 1 + 0) 0)
          first_key_indicator (0 * 1 + 0) 128 (BLOCK_DMODEL ?meta)))"
    by (rule flex_attention_output_finite[where modification=first_key_bias
          and f=first_key_bias_real, OF F]) (simp_all add: meta)
  also have "\<dots> = Some (replicate 64 (Fin (2 / 129)))"
    by (simp add: softmax2_row_def e meta first_key_indicator_def s1 s2 map_replicate_const)
  finally show "flex_attention_output ?meta first_key_bias 1 1 128 128
        (as_floats (const_tensor 0)) (as_floats (const_tensor 1)) (as_floats first_key_indicator)
        (0, 0, 0) = Some (replicate 64 (Fin (2 / 129)))" .
  have r1: "(\<Sum>n::nat<128. exp (if n = 0 then 1 else (0::real))) = exp 1 + 127"
    using sum_first_other[of "exp 1" "exp 0" 127]
    by (simp add: if_distrib[of exp])
  have r2: "(\<Sum>n::nat<128. exp (if n = 0 then 1 else (0::real)) * (if n = 0 then 1 else 0)) = exp 1"
    using sum_first_other[of "exp 1 * 1" "exp 0 * 0" 127]
    by (simp add: if_distrib[of exp] if_distrib[of "\<lambda>x. x * _"] cong: if_cong)
  show "reference_attention first_key_bias_real (const_tensor 0) (const_tensor 1)
        first_key_indicator 1 128 64 0 0 0 = replicate 64 (exp 1 / (exp 1 + 127))"
    by (simp add: reference_attention_def raw_score_def const_tensor_def first_key_bias_real_def
        first_key_indicator_def r1 r2 map_replicate_const)
  have "0 < exp (1::real) + 127" by (simp add: add_pos_pos)
  then show "(2 / 129 :: real) < exp 1 / (exp 1 + 127)"
    using exp_1_gt_2 by (simp add: field_simps)
qed

text \<open>
  C5 at a failing input. With \<^verbatim>\<open>ROWS_GUARANTEED_SAFE=False\<close>, 256 queries and keys
  and the strictly causal mask, query row 0 is fully masked. Its \<open>alpha\<close> and \<open>p\<close>
  are zeroed in every iteration, so \<open>l_i\<close> and \<open>acc\<close> stay 0 and the logsumexp stored
  is \<open>-\<infinity>\<close>; the output row is \<open>acc / l_i = 0 / 0\<close>, which is NaN and not 0. With the
  flag as the lowering sets it (\<^verbatim>\<open>True\<close>) both the output row and the logsumexp are
  NaN.
\<close>

theorem fully_masked_row_is_nan:
  "flex_attention_output ((flex_attention_choice 64 (128, 64, 4, 3))\<lparr>ROWS_GUARANTEED_SAFE := False\<rparr>)
      strict_causal_mask 2 4 256 256
      (as_floats (const_tensor 1)) (as_floats (const_tensor 1)) (as_floats (const_tensor 1))
      (1, 2, 0)
     = Some (replicate 64 NaN)
   \<and> flex_attention_lse ((flex_attention_choice 64 (128, 64, 4, 3))\<lparr>ROWS_GUARANTEED_SAFE := False\<rparr>)
      strict_causal_mask 2 4 256 256
      (as_floats (const_tensor 1)) (as_floats (const_tensor 1)) (as_floats (const_tensor 1))
      (6 * 256 + 0)
     = Some NInf
   \<and> flex_attention_output (flex_attention_choice 64 (128, 64, 4, 3))
      strict_causal_mask 2 4 256 256
      (as_floats (const_tensor 1)) (as_floats (const_tensor 1)) (as_floats (const_tensor 1))
      (1, 2, 0)
     = Some (replicate 64 NaN)
   \<and> flex_attention_lse (flex_attention_choice 64 (128, 64, 4, 3))
      strict_causal_mask 2 4 256 256
      (as_floats (const_tensor 1)) (as_floats (const_tensor 1)) (as_floats (const_tensor 1))
      (6 * 256 + 0)
     = Some NaN"
proof (intro conjI)
  let ?safe = "flex_attention_choice 64 (128, 64, 4, 3)"
  let ?unsafe = "?safe\<lparr>ROWS_GUARANTEED_SAFE := False\<rparr>"
  let ?X = "as_floats (const_tensor 1)"
  have mu: "BLOCK_M ?unsafe = 128" "BLOCK_N ?unsafe = 64" "BLOCK_DMODEL ?unsafe = 64"
    "\<not> ROWS_GUARANTEED_SAFE ?unsafe" "OUTPUT_LOGSUMEXP ?unsafe"
    by (simp_all add: flex_attention_choice_def)
  have ms: "BLOCK_M ?safe = 128" "BLOCK_N ?safe = 64" "BLOCK_DMODEL ?safe = 64"
    "ROWS_GUARANTEED_SAFE ?safe" "OUTPUT_LOGSUMEXP ?safe"
    by (simp_all add: flex_attention_choice_def)
  have mask: "strict_causal_mask s b h (0 * B + 0) n = NInf" for s b h n B
    by (simp add: strict_causal_mask_def)
  have V: "\<exists>x. ?X off_hz n d = Fin x" for off_hz n d
    by (simp add: as_floats_def)
  have ru: "row_after ?unsafe strict_causal_mask 4 ?X ?X ?X 0 off_hz 0 T = initial_row ?unsafe"
    for off_hz T
    by (rule row_after_masked_unsafe) (simp_all add: mu strict_causal_mask_def as_floats_def)
  have rs': "row_after ?safe strict_causal_mask 4 ?X ?X ?X 0 off_hz 0 (Suc T)
      = \<lparr>m_i = NInf, l_i = NaN, acc = replicate (BLOCK_DMODEL ?safe) NaN\<rparr>" for off_hz T
    by (rule row_after_masked_safe) (simp_all add: ms strict_causal_mask_def)
  have rs: "row_after ?safe strict_causal_mask 4 ?X ?X ?X 0 off_hz 0 T
      = \<lparr>m_i = NInf, l_i = NaN, acc = replicate (BLOCK_DMODEL ?safe) NaN\<rparr>"
    if "0 < T" for off_hz T
    using that rs'[of off_hz "T - 1"] by simp
  show "flex_attention_output ?unsafe strict_causal_mask 2 4 256 256 ?X ?X ?X (1, 2, 0)
      = Some (replicate 64 NaN)"
    by (subst flex_attention_output_row[where st="initial_row ?unsafe"])
       (simp_all add: mu ru initial_row_def signed_inf_def)
  show "flex_attention_lse ?unsafe strict_causal_mask 2 4 256 256 ?X ?X ?X (6 * 256 + 0)
      = Some NInf"
    by (subst flex_attention_lse_row[where st="initial_row ?unsafe"])
       (simp_all add: mu ru initial_row_def fsub_def)
  show "flex_attention_output ?safe strict_causal_mask 2 4 256 256 ?X ?X ?X (1, 2, 0)
      = Some (replicate 64 NaN)"
    by (subst flex_attention_output_row
          [where st="\<lparr>m_i = NInf, l_i = NaN, acc = replicate (BLOCK_DMODEL ?safe) NaN\<rparr>"])
       (simp_all add: ms rs)
  show "flex_attention_lse ?safe strict_causal_mask 2 4 256 256 ?X ?X ?X (6 * 256 + 0)
      = Some NaN"
    by (subst flex_attention_lse_row
          [where st="\<lparr>m_i = NInf, l_i = NaN, acc = replicate (BLOCK_DMODEL ?safe) NaN\<rparr>"])
       (simp_all add: ms rs)
qed

lemma identity_mod_finite: "identity_mod (Fin x) b h m n = Fin ((\<lambda>x b h m n. x) x b h m n)"
  by (simp add: identity_mod_def)

lemma kernel_exponent_identity:
  "kernel_exponent meta (\<lambda>x b h m n. x) H q k off_hz m n
     = LOG2E * raw_score q k (BLOCK_DMODEL meta) off_hz m n"
  by (simp add: kernel_exponent_def)




subsection \<open>The linearity flag\<close>

text \<open>
  C8: every candidate of the forward lowering has \<^verbatim>\<open>SCORE_MOD_IS_LINEAR\<close> true, so
  the kernel folds the constant 1.44269504 into the query (\<^verbatim>\<open>qk_scale\<close>) and leaves
  the modified scores as they are; every candidate of the backward lowering has the
  flag false. Neither list of candidates depends on the modification.
\<close>

theorem score_mod_is_linear_flags:
  "(\<forall>meta \<in> set (flex_attention_choices ma dt hdim cap).
       SCORE_MOD_IS_LINEAR meta \<and> qk_scale meta = LOG2E \<and> (\<forall>s. change_of_base meta s = s))
   \<and> (\<forall>meta \<in> set (flex_attention_backward_choices ma dt hdim cap).
       \<not> bwd_SCORE_MOD_IS_LINEAR meta)
   \<and> LOG2E = 1.44269504"
proof (intro conjI ballI)
  fix meta assume "meta \<in> set (flex_attention_choices ma dt hdim cap)"
  then obtain cfg where "meta = flex_attention_choice hdim cfg"
    by (auto simp: flex_attention_choices_def)
  then have l: "SCORE_MOD_IS_LINEAR meta"
    by (cases cfg) (simp add: flex_attention_choice_def)
  then show "SCORE_MOD_IS_LINEAR meta" "qk_scale meta = LOG2E" "\<forall>s. change_of_base meta s = s"
    by (simp_all add: qk_scale_def change_of_base_def)
next
  fix meta assume "meta \<in> set (flex_attention_backward_choices ma dt hdim cap)"
  then obtain cfg where "meta = flex_attention_backward_choice hdim cfg"
    by (auto simp: flex_attention_backward_choices_def)
  then show "\<not> bwd_SCORE_MOD_IS_LINEAR meta"
    by (cases cfg) (simp add: flex_attention_backward_choice_def)
next
  show "LOG2E = 1.44269504" by (simp add: LOG2E_def)
qed

theorem score_mod_is_linear_flags_witness:
  "flex_attention_choice 128 (64, 128, 4, 3) \<in> set (flex_attention_choices True bfloat16 128 (9, 0))
   \<and> SCORE_MOD_IS_LINEAR (flex_attention_choice 128 (64, 128, 4, 3))
   \<and> qk_scale (flex_attention_choice 128 (64, 128, 4, 3)) = LOG2E
   \<and> change_of_base (flex_attention_choice 128 (64, 128, 4, 3)) (Fin 3) = Fin 3
   \<and> flex_attention_backward_choice 128 (64, 32, 8, 1)
        \<in> set (flex_attention_backward_choices True bfloat16 128 (9, 0))
   \<and> \<not> bwd_SCORE_MOD_IS_LINEAR (flex_attention_backward_choice 128 (64, 32, 8, 1))"
proof -
  have f: "flex_attention_choice 128 (64, 128, 4, 3)
      \<in> set (flex_attention_choices True bfloat16 128 (9, 0))"
    by (simp add: flex_attention_choices_def flex_attention_configs_def)
  have b: "flex_attention_backward_choice 128 (64, 32, 8, 1)
        \<in> set (flex_attention_backward_choices True bfloat16 128 (9, 0))"
    by (simp add: flex_attention_backward_choices_def flex_attention_backward_configs_def)
  from score_mod_is_linear_flags[of True bfloat16 128 "(9, 0)"] f b
  show ?thesis by blast
qed

subsection \<open>The backward lowering\<close>

lemma backward_outputs_Inr:
  assumes "backward_outputs hst
      (query # key # val # out # logsumexp # grad_out # fw_graph # joint_graph # other_buffers)
      fw jt = Inr (gq, gk, gv)"
  shows "\<exists>mul_delta delta choices.
        call_lowering hst ''aten.mul'' [out, grad_out] [] = Inr mul_delta
      \<and> call_lowering hst ''aten.sum'' [mul_delta] [(''axis'', PyInt (- 1))] = Inr delta
      \<and> gq = full hst (get_size hst query) 0 (get_dtype hst query)
      \<and> gv = empty_strided hst (get_size hst val) (get_dtype hst query)
      \<and> choices \<noteq> []
      \<and> (\<forall>c \<in> set choices.
            input_nodes c = [query, key, val, out, logsumexp, delta, grad_out, gq, gv]
            \<and> mutated_inputs c = [gq, gv])
      \<and> gk = autotune_select_algorithm hst ''flex_attention_backward'' choices
               ([query, key, val, out, logsumexp, delta, grad_out, gq, gv] @ other_buffers)
               (get_dtype hst key, get_size hst key)"
proof -
  from assms obtain mul_delta delta head_dim kv_len where
    m: "call_lowering hst ''aten.mul'' [out, grad_out] [] = Inr mul_delta"
    and d: "call_lowering hst ''aten.sum'' [mul_delta] [(''axis'', PyInt (- 1))] = Inr delta"
    and h: "py_getitem (get_size hst query) (- 1) = Inr head_dim"
    and k: "py_getitem (get_size hst key) 2 = Inr kv_len"
    by (auto simp: backward_outputs_def Let_def split: sum.splits)
  let ?gq = "full hst (get_size hst query) 0 (get_dtype hst query)"
  let ?gv = "empty_strided hst (get_size hst val) (get_dtype hst query)"
  let ?configs = "flex_attention_backward_configs (max_autotune hst) (get_dtype hst query)
      head_dim (device_capability hst)"
  let ?choices = "map (\<lambda>cfg.
       \<lparr>input_nodes = [query, key, val, out, logsumexp, delta, grad_out, ?gq, ?gv],
        subgraphs = [fw, jt], mutated_inputs = [?gq, ?gv],
        call_sizes = get_size hst query @ [kv_len],
        choice_meta = flex_attention_backward_choice head_dim cfg\<rparr>) ?configs"
  have r: "gq = ?gq" "gv = ?gv"
    "gk = autotune_select_algorithm hst ''flex_attention_backward'' ?choices
               ([query, key, val, out, logsumexp, delta, grad_out, ?gq, ?gv] @ other_buffers)
               (get_dtype hst key, get_size hst key)"
    using assms m d h k by (auto simp: backward_outputs_def Let_def)
  have ne: "?choices \<noteq> []" by (simp add: flex_attention_backward_configs_def)
  have all: "\<forall>c \<in> set ?choices.
            input_nodes c = [query, key, val, out, logsumexp, delta, grad_out, ?gq, ?gv]
            \<and> mutated_inputs c = [?gq, ?gv]"
    by auto
  show ?thesis
    using m d r ne all by blast
qed

lemma reference_delta_denotes:
  assumes "host_lowerings hst = reference_lowerings"
    and "\<rho> oname = (s, fo)" and "\<rho> gname = (s, fg)" and "s \<noteq> []"
  shows "\<exists>mul_delta delta.
      call_lowering hst ''aten.mul''
        [create_placeholder oname dt1, create_placeholder gname dt2] [] = Inr mul_delta
    \<and> call_lowering hst ''aten.sum'' [mul_delta] [(''axis'', PyInt (- 1))] = Inr delta
    \<and> denote \<rho> delta
        = Some (butlast s, \<lambda>idx. \<Sum>d<last s. fo (idx @ [d]) * fg (idx @ [d]))"
  using assms
  by (simp add: call_lowering_def reference_lowerings_def create_placeholder_def)

text \<open>
  C9: whenever \<^verbatim>\<open>flex_attention_backward\<close> returns, it returns the triple
  (grad_query, grad_key, grad_value), where grad_query is \<^verbatim>\<open>full\<close> of the query's
  size with fill value 0, grad_value is \<^verbatim>\<open>empty_strided\<close> of the value's size, and
  grad_key is the result of the autotuner; delta is one node, the lowering of
  \<^verbatim>\<open>aten.sum\<close> with \<^verbatim>\<open>axis=-1\<close> applied to the lowering of \<^verbatim>\<open>aten.mul\<close> of
  \<^verbatim>\<open>out\<close> and \<^verbatim>\<open>grad_out\<close>, built before any candidate and passed as the sixth
  input of every candidate and of the autotuner. With the multiply and the sum read as
  elementwise product and sum along the last axis, delta at an index is the sum over
  \<open>d\<close> of \<open>out * grad_out\<close> at that index extended by \<open>d\<close>.
\<close>

theorem backward_prepass:
  "(flex_attention_backward hst
      (query # key # val # out # logsumexp # grad_out # fw_graph # joint_graph # other_buffers)
      = Inr (gq, gk, gv)
    \<longrightarrow>
      (\<exists>mul_delta delta choices.
          call_lowering hst ''aten.mul'' [out, grad_out] [] = Inr mul_delta
        \<and> call_lowering hst ''aten.sum'' [mul_delta] [(''axis'', PyInt (- 1))] = Inr delta
        \<and> gq = full hst (get_size hst query) 0 (get_dtype hst query)
        \<and> gv = empty_strided hst (get_size hst val) (get_dtype hst query)
        \<and> choices \<noteq> []
        \<and> (\<forall>c \<in> set choices.
              input_nodes c = [query, key, val, out, logsumexp, delta, grad_out, gq, gv]
              \<and> mutated_inputs c = [gq, gv])
        \<and> gk = autotune_select_algorithm hst ''flex_attention_backward'' choices
                 ([query, key, val, out, logsumexp, delta, grad_out, gq, gv] @ other_buffers)
                 (get_dtype hst key, get_size hst key)))
   \<and> (host_lowerings hst = reference_lowerings \<and> \<rho> oname = (s, fo) \<and> \<rho> gname = (s, fg)
        \<and> s \<noteq> []
    \<longrightarrow>
      (\<exists>mul_delta delta.
          call_lowering hst ''aten.mul''
            [create_placeholder oname dt1, create_placeholder gname dt2] [] = Inr mul_delta
        \<and> call_lowering hst ''aten.sum'' [mul_delta] [(''axis'', PyInt (- 1))] = Inr delta
        \<and> denote \<rho> delta
            = Some (butlast s, \<lambda>idx. \<Sum>d<last s. fo (idx @ [d]) * fg (idx @ [d]))))"
proof (intro conjI impI)
  let ?a = "query # key # val # out # logsumexp # grad_out # fw_graph # joint_graph # other_buffers"
  assume "flex_attention_backward hst ?a = Inr (gq, gk, gv)"
  then obtain fw jt where "backward_outputs hst ?a fw jt = Inr (gq, gk, gv)"
    by (auto simp: flex_attention_backward_def Let_def split: sum.splits)
  then show "\<exists>mul_delta delta choices.
          call_lowering hst ''aten.mul'' [out, grad_out] [] = Inr mul_delta
        \<and> call_lowering hst ''aten.sum'' [mul_delta] [(''axis'', PyInt (- 1))] = Inr delta
        \<and> gq = full hst (get_size hst query) 0 (get_dtype hst query)
        \<and> gv = empty_strided hst (get_size hst val) (get_dtype hst query)
        \<and> choices \<noteq> []
        \<and> (\<forall>c \<in> set choices.
              input_nodes c = [query, key, val, out, logsumexp, delta, grad_out, gq, gv]
              \<and> mutated_inputs c = [gq, gv])
        \<and> gk = autotune_select_algorithm hst ''flex_attention_backward'' choices
                 ([query, key, val, out, logsumexp, delta, grad_out, gq, gv] @ other_buffers)
                 (get_dtype hst key, get_size hst key)"
    by (rule backward_outputs_Inr)
next
  assume "host_lowerings hst = reference_lowerings \<and> \<rho> oname = (s, fo) \<and> \<rho> gname = (s, fg)
        \<and> s \<noteq> []"
  then show "\<exists>mul_delta delta.
          call_lowering hst ''aten.mul''
            [create_placeholder oname dt1, create_placeholder gname dt2] [] = Inr mul_delta
        \<and> call_lowering hst ''aten.sum'' [mul_delta] [(''axis'', PyInt (- 1))] = Inr delta
        \<and> denote \<rho> delta
            = Some (butlast s, \<lambda>idx. \<Sum>d<last s. fo (idx @ [d]) * fg (idx @ [d]))"
    using reference_delta_denotes by blast
qed

lemma example_backward_run:
  "flex_attention_backward example_host example_backward_args =
     Inr (example_grad_query,
          TensorBox (StorageBox (IRData ''flex_attention_backward''
            [create_placeholder ''query'' float32, create_placeholder ''key'' float32,
             create_placeholder ''value'' float32, create_placeholder ''out'' float32,
             create_placeholder ''logsumexp'' float32, example_delta,
             create_placeholder ''grad_out'' float32, example_grad_query, example_grad_value])),
          example_grad_value)"
  by (simp add: flex_attention_backward_def backward_outputs_def example_host_def
      example_backward_args_def identity_graph_def joint_identity_graph_def ex_defs
      call_lowering_def reference_lowerings_def example_delta_def example_grad_query_def
      example_grad_value_def)

theorem backward_prepass_witness:
  "flex_attention_backward example_host example_backward_args =
     Inr (example_grad_query,
          TensorBox (StorageBox (IRData ''flex_attention_backward''
            [create_placeholder ''query'' float32, create_placeholder ''key'' float32,
             create_placeholder ''value'' float32, create_placeholder ''out'' float32,
             create_placeholder ''logsumexp'' float32, example_delta,
             create_placeholder ''grad_out'' float32, example_grad_query, example_grad_value])),
          example_grad_value)
   \<and> example_grad_query = full example_host [2, 4, 256, 64] 0 float32
   \<and> example_grad_value = empty_strided example_host [2, 4, 256, 64] float32
   \<and> denote example_values example_delta = Some ([2, 4, 256], \<lambda>idx. 384)"
proof -
  let ?gk = "TensorBox (StorageBox (IRData ''flex_attention_backward''
            [create_placeholder ''query'' float32, create_placeholder ''key'' float32,
             create_placeholder ''value'' float32, create_placeholder ''out'' float32,
             create_placeholder ''logsumexp'' float32, example_delta,
             create_placeholder ''grad_out'' float32, example_grad_query, example_grad_value]))"
  note inst = backward_prepass[of example_host
      "create_placeholder ''query'' float32" "create_placeholder ''key'' float32"
      "create_placeholder ''value'' float32" "create_placeholder ''out'' float32"
      "create_placeholder ''logsumexp'' float32" "create_placeholder ''grad_out'' float32"
      "SubgraphObj 0" "SubgraphObj 1" "[]" example_grad_query ?gk example_grad_value
      example_values "''out''" "[2, 4, 256, 64]" "\<lambda>idx. 2" "''grad_out''" "\<lambda>idx. 3"
      float32 float32]
  have run: "flex_attention_backward example_host
      (create_placeholder ''query'' float32 # create_placeholder ''key'' float32 #
       create_placeholder ''value'' float32 # create_placeholder ''out'' float32 #
       create_placeholder ''logsumexp'' float32 # create_placeholder ''grad_out'' float32 #
       SubgraphObj 0 # SubgraphObj 1 # []) = Inr (example_grad_query, ?gk, example_grad_value)"
    using example_backward_run by (simp add: example_backward_args_def)
  from inst[THEN conjunct1, THEN mp, OF run] obtain mul_delta0 delta0 choices0 where
    "example_grad_query = full example_host
       (get_size example_host (create_placeholder ''query'' float32)) 0
       (get_dtype example_host (create_placeholder ''query'' float32))"
    "example_grad_value = empty_strided example_host
       (get_size example_host (create_placeholder ''value'' float32))
       (get_dtype example_host (create_placeholder ''query'' float32))"
    by (elim exE conjE) (rule that)
  then have g: "example_grad_query = full example_host [2, 4, 256, 64] 0 float32"
    "example_grad_value = empty_strided example_host [2, 4, 256, 64] float32"
    by (simp_all add: example_host_def)
  have hyp: "host_lowerings example_host = reference_lowerings
      \<and> example_values ''out'' = ([2, 4, 256, 64], \<lambda>idx. 2)
      \<and> example_values ''grad_out'' = ([2, 4, 256, 64], \<lambda>idx. 3)
      \<and> [2, 4, 256, 64] \<noteq> ([] :: nat list)"
    by (simp add: example_host_def example_values_def)
  from inst[THEN conjunct2, THEN mp, OF hyp] obtain mul_delta delta where
    m: "call_lowering example_host ''aten.mul''
          [create_placeholder ''out'' float32, create_placeholder ''grad_out'' float32] []
        = Inr mul_delta"
    and d: "call_lowering example_host ''aten.sum'' [mul_delta] [(''axis'', PyInt (- 1))]
        = Inr delta"
    and v: "denote example_values delta
        = Some (butlast [2, 4, 256, 64], \<lambda>idx. \<Sum>d<last [2, 4, 256, 64 :: nat]. 2 * 3)"
    by blast
  from m d have "delta = example_delta"
    by (auto simp: call_lowering_def example_host_def reference_lowerings_def example_delta_def)
  with v have "denote example_values example_delta = Some ([2, 4, 256], \<lambda>idx. 384)"
    by simp
  with run g show ?thesis by (simp add: example_backward_args_def)
qed

end
